theory Spec2Isabelle
  imports Main "HOL-Library.Sublist"
begin

section \<open>Realtime transcription service (openaiRealtimeWebRTCService.ts)\<close>

text \<open>
  The class \<open>OpenAIRealtimeWebRTCService\<close> is a record of its private fields. A field of
  type \<open>T | null\<close> is an option. A media stream is the list of its tracks; handles of
  platform objects are natural numbers. JavaScript strings are character lists.
\<close>

record service =
  peerConnection :: "nat option"
  dataChannel :: "nat option"
  micStream :: "nat list option"
  clientToken :: "string option"
  webrtcSdpUrl :: "string option"
  finalText :: string
  partialText :: string

text \<open>
  Everything the service does to the outside world is logged, in program order: the
  callbacks of \<open>RealtimeCallbacks\<close> it invokes and the platform calls it makes.
  A callback is an effect only: it returns and does not throw.
\<close>

datatype effect =
    OnTranscript string bool
  | OnFinalUtterance string
  | OnError string
  | OnDisconnect
  | FetchRealtimeSession
  | NewRTCPeerConnection nat
  | CreateDataChannel nat
  | GetUserMedia
  | AddTrack nat
  | CreateOffer
  | SetLocalDescription string
  | PostSdp string string bool
  | SetRemoteDescription string
  | DataChannelClose nat
  | PeerConnectionClose nat
  | TrackStop nat
  | JSONParse string

text \<open>The constructor: no transport objects, no token, both transcript buffers empty.\<close>

definition constructor :: service where
  "constructor = \<lparr> peerConnection = None, dataChannel = None, micStream = None,
     clientToken = None, webrtcSdpUrl = None, finalText = [], partialText = [] \<rparr>"

subsection \<open>Inbound events\<close>

text \<open>
  A decoded frame, seen through the four fields \<open>handleMessage\<close> reads with
  \<open>message?.f\<close>. A field that is absent (or the whole message being \<open>null\<close> or a
  primitive) reads as \<open>undefined\<close>, here \<open>None\<close>. The payload fields are strings
  when present, as the channel's event shape and the callback signatures declare.
\<close>

record message =
  msg_type :: "string option"
  msg_delta :: "string option"
  msg_text :: "string option"
  msg_transcript :: "string option"

text \<open>\<open>a || b || ''\<close> on optional strings: the first operand that is a non-empty string
  (the empty string and \<open>undefined\<close> are falsy), else the empty string.\<close>

definition or_empty :: "string option \<Rightarrow> string option \<Rightarrow> string" where
  "or_empty a b =
     (case a of
        Some x \<Rightarrow> if x \<noteq> [] then x else (case b of Some y \<Rightarrow> y | None \<Rightarrow> [])
      | None \<Rightarrow> (case b of Some y \<Rightarrow> y | None \<Rightarrow> []))"

definition handleMessage :: "message \<Rightarrow> service \<Rightarrow> service \<times> effect list" where
  "handleMessage message this =
     (let type = msg_type message in
      if type = Some ''conversation.item.input_audio_transcription.delta'' \<or>
         type = Some ''input_audio_transcription.delta'' \<or>
         type = Some ''audio.input.transcription.delta'' \<or>
         type = Some ''transcription.delta''
      then
        (let delta = or_empty (msg_delta message) (msg_text message) in
         if delta = [] then (this, [])
         else
           (let this1 = this\<lparr>partialText := partialText this @ delta\<rparr>
            in (this1, [OnTranscript (finalText this1 @ partialText this1) False])))
      else if
         type = Some ''conversation.item.input_audio_transcription.completed'' \<or>
         type = Some ''input_audio_transcription.completed'' \<or>
         type = Some ''audio.input.transcription.completed'' \<or>
         type = Some ''transcription.completed''
      then
        (let transcript = or_empty (msg_transcript message) (msg_text message) in
         if transcript = [] then (this, [])
         else
           (let this1 = this\<lparr>finalText :=
                  (if finalText this \<noteq> [] then finalText this @ [CHR 0x0A] @ transcript
                   else transcript)\<rparr>;
                this2 = this1\<lparr>partialText := []\<rparr>
            in (this2, [OnFinalUtterance transcript, OnTranscript (finalText this2) True])))
      else (this, []))"

text \<open>
  The channel's \<open>onmessage\<close> handler. With \<open>binaryType = 'arraybuffer'\<close> a frame is a
  string or an ArrayBuffer (its bytes). \<open>JSON.parse\<close> and \<open>TextDecoder.decode\<close> belong to
  the platform and are parameters; \<open>JSON.parse\<close> returning \<open>None\<close> is its SyntaxError,
  which the handler's \<open>catch\<close> swallows. Each call of \<open>JSON.parse\<close> is logged.
\<close>

datatype frame = StringFrame string | ArrayBufferFrame string

definition onmessage ::
  "(string \<Rightarrow> message option) \<Rightarrow> (string \<Rightarrow> string) \<Rightarrow> frame \<Rightarrow> service \<Rightarrow> service \<times> effect list" where
  "onmessage JSON_parse decode raw this =
     (case raw of
        StringFrame str \<Rightarrow>
          (case JSON_parse str of
             None \<Rightarrow> (this, [JSONParse str])
           | Some m \<Rightarrow> (let (this1, out) = handleMessage m this in (this1, JSONParse str # out)))
      | ArrayBufferFrame bytes \<Rightarrow>
          (let text = decode bytes in
           case JSON_parse text of
             None \<Rightarrow> (this, [JSONParse text])
           | Some m \<Rightarrow> (let (this1, out) = handleMessage m this in (this1, JSONParse text # out))))"

text \<open>Messages are handled one at a time, in arrival order, by the single-threaded
  event loop; the effects of the run are the effects of the steps, in order.\<close>

fun handleMessages :: "message list \<Rightarrow> service \<Rightarrow> service \<times> effect list" where
  "handleMessages [] this = (this, [])"
| "handleMessages (m # ms) this =
     (let (this1, out1) = handleMessage m this;
          (this2, out2) = handleMessages ms this1
      in (this2, out1 @ out2))"

text \<open>The two type allow-lists of \<open>handleMessage\<close>, as lists.\<close>

definition delta_types :: "string list" where
  "delta_types =
     [''conversation.item.input_audio_transcription.delta'',
      ''input_audio_transcription.delta'',
      ''audio.input.transcription.delta'',
      ''transcription.delta'']"

definition completed_types :: "string list" where
  "completed_types =
     [''conversation.item.input_audio_transcription.completed'',
      ''input_audio_transcription.completed'',
      ''audio.input.transcription.completed'',
      ''transcription.completed'']"

text \<open>The two output streams of a run: the utterances notified through
  \<open>onFinalUtterance\<close>, and the transcripts sent through \<open>onTranscript\<close> with the final flag.\<close>

fun utterances :: "effect list \<Rightarrow> string list" where
  "utterances [] = []"
| "utterances (OnFinalUtterance u # es) = u # utterances es"
| "utterances (e # es) = utterances es"

fun final_transcripts :: "effect list \<Rightarrow> string list" where
  "final_transcripts [] = []"
| "final_transcripts (OnTranscript t True # es) = t # final_transcripts es"
| "final_transcripts (e # es) = final_transcripts es"

fun json_decodes :: "effect list \<Rightarrow> nat" where
  "json_decodes [] = 0"
| "json_decodes (JSONParse str # es) = Suc (json_decodes es)"
| "json_decodes (e # es) = json_decodes es"

text \<open>\<open>Array.prototype.join('\n')\<close>.\<close>

fun join_lines :: "string list \<Rightarrow> string" where
  "join_lines [] = []"
| "join_lines [u] = u"
| "join_lines (u # v # us) = u @ [CHR 0x0A] @ join_lines (v # us)"

text \<open>The text handed to \<open>JSON.parse\<close> for a frame.\<close>

definition frame_text :: "(string \<Rightarrow> string) \<Rightarrow> frame \<Rightarrow> string" where
  "frame_text decode raw =
     (case raw of StringFrame str \<Rightarrow> str | ArrayBufferFrame bytes \<Rightarrow> decode bytes)"

subsection \<open>Opening and closing the transport session\<close>

text \<open>
  An awaited platform promise settles: it is fulfilled with a value or rejected with an
  error, of which the model keeps the message. An \<open>async\<close> method of the service either
  resolves or throws such an error.
\<close>

datatype 'a settled = Fulfilled 'a | Rejected string

datatype outcome = Resolved | Threw string

text \<open>A fetch response, as far as the service reads it: \<open>ok\<close>, the status (its decimal
  digits) and the body text.\<close>

record response =
  res_ok :: bool
  res_status :: string
  res_text :: string

text \<open>The body of the session endpoint's reply, \<open>RealtimeSessionResponse\<close>, as far as it
  is read: \<open>client_token\<close> and the optional \<open>webrtc_sdp_url\<close>.\<close>

record RealtimeSessionResponse =
  client_token :: "string option"
  webrtc_sdp_url :: "string option"

text \<open>
  What the platform answers during one \<open>connect\<close>: the backend's session endpoint, the
  browser's WebRTC and media objects, and the negotiation endpoint (asked with and
  without the beta header). These are parameters of the model.
\<close>

record platform =
  session_fetch :: "response settled"
  session_json :: "RealtimeSessionResponse settled"
  new_RTCPeerConnection :: nat
  createDataChannel :: nat
  getUserMedia :: "nat list settled"
  createOffer :: "string option settled"
  setLocalDescription :: "string option \<Rightarrow> unit settled"
  sdp_fetch :: "string \<Rightarrow> string \<Rightarrow> bool \<Rightarrow> response settled"
  setRemoteDescription :: "string \<Rightarrow> unit settled"

text \<open>JavaScript truthiness of an optional string, and \<open>a || d\<close> with a string default.\<close>

definition truthy :: "string option \<Rightarrow> bool" where
  "truthy v = (case v of None \<Rightarrow> False | Some x \<Rightarrow> x \<noteq> [])"

definition or_default :: "string option \<Rightarrow> string \<Rightarrow> string" where
  "or_default v d = (case v of None \<Rightarrow> d | Some x \<Rightarrow> if x \<noteq> [] then x else d)"

definition createRealtimeSession :: "platform \<Rightarrow> service \<Rightarrow> outcome \<times> service \<times> effect list" where
  "createRealtimeSession pf this =
     (case session_fetch pf of
        Rejected e \<Rightarrow> (Threw e, this, [FetchRealtimeSession])
      | Fulfilled response \<Rightarrow>
          if \<not> res_ok response then
            (Threw (''Realtime session error: '' @ res_status response @ '' '' @ res_text response),
             this, [FetchRealtimeSession])
          else
            (case session_json pf of
               Rejected e \<Rightarrow> (Threw e, this, [FetchRealtimeSession])
             | Fulfilled data \<Rightarrow>
                 (let this1 = this\<lparr>clientToken := client_token data\<rparr>;
                      this2 = this1\<lparr>webrtcSdpUrl :=
                                (if truthy (webrtc_sdp_url data) then webrtc_sdp_url data else None)\<rparr>
                  in (Resolved, this2, [FetchRealtimeSession]))))"

definition postSdp :: "platform \<Rightarrow> string \<Rightarrow> string \<Rightarrow> bool \<Rightarrow> string settled \<times> effect list" where
  "postSdp pf url sdp withBetaHeader =
     (case sdp_fetch pf url sdp withBetaHeader of
        Rejected e \<Rightarrow> (Rejected e, [PostSdp url sdp withBetaHeader])
      | Fulfilled res \<Rightarrow>
          if \<not> res_ok res then (Fulfilled [], [PostSdp url sdp withBetaHeader])
          else (Fulfilled (res_text res), [PostSdp url sdp withBetaHeader]))"

text \<open>The two statements that obtain \<open>answerSdp\<close>: the first post, and the fallback post
  with the beta header when the first answer is falsy (the empty string).\<close>

definition negotiate :: "platform \<Rightarrow> string \<Rightarrow> string \<Rightarrow> string settled \<times> effect list" where
  "negotiate pf sdpUrl sdp =
     (case postSdp pf sdpUrl sdp False of
        (Rejected e, log1) \<Rightarrow> (Rejected e, log1)
      | (Fulfilled answerSdp, log1) \<Rightarrow>
          if answerSdp = [] then
            (case postSdp pf sdpUrl sdp True of (r, log2) \<Rightarrow> (r, log1 @ log2))
          else (Fulfilled answerSdp, log1))"

definition createWebRTCConnection :: "platform \<Rightarrow> service \<Rightarrow> outcome \<times> service \<times> effect list" where
  "createWebRTCConnection pf this =
     (if \<not> truthy (clientToken this) then (Threw ''Missing realtime client token'', this, [])
      else
        (let pc = new_RTCPeerConnection pf;
             this1 = this\<lparr>peerConnection := Some pc\<rparr>;
             dc = createDataChannel pf;
             this2 = this1\<lparr>dataChannel := Some dc\<rparr>;
             log2 = [NewRTCPeerConnection pc, CreateDataChannel dc, GetUserMedia]
         in case getUserMedia pf of
              Rejected e \<Rightarrow> (Threw e, this2, log2)
            | Fulfilled tracks \<Rightarrow>
                (let this3 = this2\<lparr>micStream := Some tracks\<rparr>;
                     log3 = log2 @ map AddTrack tracks @ [CreateOffer]
                 in case createOffer pf of
                      Rejected e \<Rightarrow> (Threw e, this3, log3)
                    | Fulfilled offer \<Rightarrow>
                        (let log4 = log3 @ [SetLocalDescription (or_default offer [])]
                         in case setLocalDescription pf offer of
                              Rejected e \<Rightarrow> (Threw e, this3, log4)
                            | Fulfilled u \<Rightarrow>
                                (let sdpUrl = or_default (webrtcSdpUrl this3)
                                                ''https://api.openai.com/v1/realtime/calls''
                                 in case negotiate pf sdpUrl (or_default offer []) of
                                      (Rejected e, log5) \<Rightarrow> (Threw e, this3, log4 @ log5)
                                    | (Fulfilled answerSdp, log5) \<Rightarrow>
                                        (case setRemoteDescription pf answerSdp of
                                           Rejected e \<Rightarrow>
                                             (Threw e, this3,
                                              log4 @ log5 @ [SetRemoteDescription answerSdp])
                                         | Fulfilled v \<Rightarrow>
                                             (Resolved, this3,
                                              log4 @ log5 @ [SetRemoteDescription answerSdp])))))))"

text \<open>\<open>connect\<close>: both steps inside \<open>try\<close>; the \<open>catch\<close> reports the message (or the
  default text when it is empty) through \<open>onError\<close> and rethrows. It does nothing else.\<close>

definition connect :: "platform \<Rightarrow> service \<Rightarrow> outcome \<times> service \<times> effect list" where
  "connect pf this =
     (case createRealtimeSession pf this of
        (Threw e, this1, log1) \<Rightarrow>
          (Threw e, this1, log1 @ [OnError (or_default (Some e) ''Failed to connect to realtime'')])
      | (Resolved, this1, log1) \<Rightarrow>
          (case createWebRTCConnection pf this1 of
             (Threw e, this2, log2) \<Rightarrow>
               (Threw e, this2,
                log1 @ log2 @ [OnError (or_default (Some e) ''Failed to connect to realtime'')])
           | (Resolved, this2, log2) \<Rightarrow> (Resolved, this2, log1 @ log2)))"

text \<open>
  \<open>disconnect\<close>. The three statements of the \<open>try\<close> block run in source order, each
  guarded by \<open>?.\<close> so that a \<open>null\<close> field is skipped; the platform's \<open>close()\<close> and
  \<open>stop()\<close> do not throw. The \<open>finally\<close> block clears the three fields and signals
  \<open>onDisconnect\<close>. The method is modelled as one uninterrupted step; a \<open>disconnect\<close>
  issued while \<open>connect\<close> is suspended at an \<open>await\<close> acts on the state \<open>connect\<close> has
  reached by then.
\<close>

definition disconnect :: "service \<Rightarrow> outcome \<times> service \<times> effect list" where
  "disconnect this =
     (let log1 = (case dataChannel this of Some dc \<Rightarrow> [DataChannelClose dc] | None \<Rightarrow> []);
          log2 = (case peerConnection this of Some pc \<Rightarrow> [PeerConnectionClose pc] | None \<Rightarrow> []);
          log3 = (case micStream this of Some tracks \<Rightarrow> map TrackStop tracks | None \<Rightarrow> []);
          this1 = this\<lparr>dataChannel := None\<rparr>;
          this2 = this1\<lparr>peerConnection := None\<rparr>;
          this3 = this2\<lparr>micStream := None\<rparr>
      in (Resolved, this3, log1 @ log2 @ log3 @ [OnDisconnect]))"

text \<open>
  \<open>createWebRTCConnection\<close> in two parts, cut at \<open>await getUserMedia\<close>, where the method
  is suspended and other code of the page can run. The first part runs up to the call
  of \<open>getUserMedia\<close> and suspends there (outcome \<open>None\<close>), unless the token is missing.
  The second part resumes when that promise has settled, on the state the service is in
  by then: the stream is stored in \<open>micStream\<close>, \<open>this.peerConnection?.addTrack\<close> is
  skipped when the transport is \<open>null\<close>, and \<open>this.peerConnection.createOffer()\<close> on a
  \<open>null\<close> transport throws a TypeError (whose message is the engine's).
\<close>

definition createWebRTCConnection_suspends ::
  "platform \<Rightarrow> service \<Rightarrow> outcome option \<times> service \<times> effect list" where
  "createWebRTCConnection_suspends pf this =
     (if \<not> truthy (clientToken this) then
        (Some (Threw ''Missing realtime client token''), this, [])
      else
        (let pc = new_RTCPeerConnection pf;
             this1 = this\<lparr>peerConnection := Some pc\<rparr>;
             dc = createDataChannel pf;
             this2 = this1\<lparr>dataChannel := Some dc\<rparr>
         in (None, this2, [NewRTCPeerConnection pc, CreateDataChannel dc, GetUserMedia])))"

definition createWebRTCConnection_resumes ::
  "platform \<Rightarrow> service \<Rightarrow> outcome \<times> service \<times> effect list" where
  "createWebRTCConnection_resumes pf this =
     (case getUserMedia pf of
        Rejected e \<Rightarrow> (Threw e, this, [])
      | Fulfilled tracks \<Rightarrow>
          (let this3 = this\<lparr>micStream := Some tracks\<rparr>
           in case peerConnection this3 of
                None \<Rightarrow> (Threw ''Cannot read properties of null (reading createOffer)'', this3, [])
              | Some pc \<Rightarrow>
                  (let log3 = map AddTrack tracks @ [CreateOffer]
                   in case createOffer pf of
                        Rejected e \<Rightarrow> (Threw e, this3, log3)
                      | Fulfilled offer \<Rightarrow>
                          (let log4 = log3 @ [SetLocalDescription (or_default offer [])]
                           in case setLocalDescription pf offer of
                                Rejected e \<Rightarrow> (Threw e, this3, log4)
                              | Fulfilled u \<Rightarrow>
                                  (let sdpUrl = or_default (webrtcSdpUrl this3)
                                                  ''https://api.openai.com/v1/realtime/calls''
                                   in case negotiate pf sdpUrl (or_default offer []) of
                                        (Rejected e, log5) \<Rightarrow> (Threw e, this3, log4 @ log5)
                                      | (Fulfilled answerSdp, log5) \<Rightarrow>
                                          (case setRemoteDescription pf answerSdp of
                                             Rejected e \<Rightarrow>
                                               (Threw e, this3,
                                                log4 @ log5 @ [SetRemoteDescription answerSdp])
                                           | Fulfilled v \<Rightarrow>
                                               (Resolved, this3,
                                                log4 @ log5 @ [SetRemoteDescription answerSdp])))))))"

text \<open>\<open>connect\<close> when the page calls \<open>disconnect\<close> while \<open>createWebRTCConnection\<close> is
  suspended at \<open>await getUserMedia\<close>: the suspended method is not cancelled and resumes
  after \<open>disconnect\<close> has returned.\<close>

definition connect_disconnected_at_getUserMedia ::
  "platform \<Rightarrow> service \<Rightarrow> outcome \<times> service \<times> effect list" where
  "connect_disconnected_at_getUserMedia pf this =
     (case createRealtimeSession pf this of
        (Threw e, this1, log1) \<Rightarrow>
          (Threw e, this1, log1 @ [OnError (or_default (Some e) ''Failed to connect to realtime'')])
      | (Resolved, this1, log1) \<Rightarrow>
          (case createWebRTCConnection_suspends pf this1 of
             (Some (Threw e), this2, log2) \<Rightarrow>
               (Threw e, this2,
                log1 @ log2 @ [OnError (or_default (Some e) ''Failed to connect to realtime'')])
           | (Some Resolved, this2, log2) \<Rightarrow> (Resolved, this2, log1 @ log2)
           | (None, this2, log2) \<Rightarrow>
               (case disconnect this2 of
                  (closed, this3, log3) \<Rightarrow>
                    (case createWebRTCConnection_resumes pf this3 of
                       (Threw e, this4, log4) \<Rightarrow>
                         (Threw e, this4,
                          log1 @ log2 @ log3 @ log4 @
                          [OnError (or_default (Some e) ''Failed to connect to realtime'')])
                     | (Resolved, this4, log4) \<Rightarrow>
                         (Resolved, this4, log1 @ log2 @ log3 @ log4)))))"

text \<open>Views of an effect log: the negotiation posts, and the positions of the three
  kinds of teardown action.\<close>

fun sdp_posts :: "effect list \<Rightarrow> (string \<times> string \<times> bool) list" where
  "sdp_posts [] = []"
| "sdp_posts (PostSdp url sdp beta # es) = (url, sdp, beta) # sdp_posts es"
| "sdp_posts (e # es) = sdp_posts es"

fun is_TrackStop :: "effect \<Rightarrow> bool" where
  "is_TrackStop (TrackStop t) = True"
| "is_TrackStop e = False"

fun is_DataChannelClose :: "effect \<Rightarrow> bool" where
  "is_DataChannelClose (DataChannelClose dc) = True"
| "is_DataChannelClose e = False"

fun is_PeerConnectionClose :: "effect \<Rightarrow> bool" where
  "is_PeerConnectionClose (PeerConnectionClose pc) = True"
| "is_PeerConnectionClose e = False"

text \<open>\<open>all_before P Q es\<close>: in \<open>es\<close>, no action of kind \<open>P\<close> comes after one of kind \<open>Q\<close>.\<close>

fun all_before :: "(effect \<Rightarrow> bool) \<Rightarrow> (effect \<Rightarrow> bool) \<Rightarrow> effect list \<Rightarrow> bool" where
  "all_before P Q [] = True"
| "all_before P Q (e # es) = ((if Q e then \<not> list_ex P es else True) \<and> all_before P Q es)"

text \<open>Nothing is held: the three resource fields are \<open>null\<close>.\<close>

definition released :: "service \<Rightarrow> bool" where
  "released this = (dataChannel this = None \<and> peerConnection this = None \<and> micStream this = None)"

text \<open>
  A platform used in the examples below: the backend issues the token \<open>tok\<close> without a
  negotiation URL, the microphone has one track (handle 2), the negotiation endpoint
  answers every post with status 400, and the browser rejects an empty answer
  description.
\<close>

definition rejecting_platform :: platform where
  "rejecting_platform =
     \<lparr> session_fetch = Fulfilled \<lparr>res_ok = True, res_status = ''200'', res_text = []\<rparr>,
       session_json = Fulfilled \<lparr>client_token = Some ''tok'', webrtc_sdp_url = None\<rparr>,
       new_RTCPeerConnection = 0,
       createDataChannel = 1,
       getUserMedia = Fulfilled [2],
       createOffer = Fulfilled (Some ''v=0''),
       setLocalDescription = (\<lambda>offer. Fulfilled ()),
       sdp_fetch = (\<lambda>url sdp beta.
          Fulfilled \<lparr>res_ok = False, res_status = ''400'', res_text = ''unsupported''\<rparr>),
       setRemoteDescription = (\<lambda>sdp.
          if sdp = [] then Rejected ''Failed to parse SessionDescription'' else Fulfilled ()) \<rparr>"

section \<open>The interview workflow (App.tsx)\<close>

text \<open>
  The component state of \<open>App\<close> that the workflow reads and writes, as a record of its
  \<open>useState\<close> cells. \<open>timers\<close> is not a cell: it lists the reset callbacks that
  \<open>window.setTimeout\<close> holds pending, each with the earliest time at which it may run.
  Times are the non-negative millisecond counts that \<open>Date.now()\<close> returns.
\<close>

datatype SessionStep = Setup | Record | Finalize

record SessionDocument =
  doc_type :: string
  file_name :: string

record InterviewSession =
  session_id :: nat
  documents :: "SessionDocument list option"

record ActionButton =
  button_id :: string
  label :: string
  prompt :: string

record app =
  currentUser :: "nat option"
  session :: "InterviewSession option"
  diarizedTranscript :: string
  realtimeTranscript :: string
  actionLoading :: bool
  actionOutput :: string
  actionError :: "string option"
  actionCooldownUntil :: nat
  activeStep :: SessionStep
  timers :: "nat list"

definition initial_app :: app where
  "initial_app =
     \<lparr> currentUser = None, session = None, diarizedTranscript = [], realtimeTranscript = [],
       actionLoading = False, actionOutput = [], actionError = None, actionCooldownUntil = 0,
       activeStep = Setup, timers = [] \<rparr>"

text \<open>
  \<open>String.prototype.trim\<close> removes white space and line terminators from both ends. A
  character stands for the code unit of the same value; below 256 the white space code
  units are tab, line feed, vertical tab, form feed, carriage return, space and the
  no-break space.
\<close>

definition isWhiteSpace :: "char \<Rightarrow> bool" where
  "isWhiteSpace c = (of_char c \<in> {9, 10, 11, 12, 13, 32, 160 :: nat})"

definition trim :: "string \<Rightarrow> string" where
  "trim s = rev (dropWhile isWhiteSpace (rev (dropWhile isWhiteSpace s)))"

subsection \<open>Auto-advance of the step\<close>

definition hasSetup :: "app \<Rightarrow> bool" where
  "hasSetup a = (currentUser a \<noteq> None \<and> session a \<noteq> None)"

definition sessionDocs :: "app \<Rightarrow> SessionDocument list" where
  "sessionDocs a =
     (case session a of
        None \<Rightarrow> []
      | Some s \<Rightarrow> (case documents s of None \<Rightarrow> [] | Some ds \<Rightarrow> ds))"

definition hasJD :: "app \<Rightarrow> bool" where
  "hasJD a = list_ex (\<lambda>d. doc_type d = ''JD'') (sessionDocs a)"

definition hasCV :: "app \<Rightarrow> bool" where
  "hasCV a = list_ex (\<lambda>d. doc_type d = ''CV'') (sessionDocs a)"

definition hasDocsReady :: "app \<Rightarrow> bool" where
  "hasDocsReady a = (hasSetup a \<and> hasJD a \<and> hasCV a)"

definition hasRecordingData :: "app \<Rightarrow> bool" where
  "hasRecordingData a = (trim (realtimeTranscript a) \<noteq> [])"

definition hasFinalized :: "app \<Rightarrow> bool" where
  "hasFinalized a = (trim (diarizedTranscript a) \<noteq> [])"

text \<open>The body of the auto-advance effect.\<close>

definition autoAdvance :: "app \<Rightarrow> app" where
  "autoAdvance a =
     (if hasFinalized a then a\<lparr>activeStep := Finalize\<rparr>
      else if hasRecordingData a then a\<lparr>activeStep := Record\<rparr>
      else if hasDocsReady a then a\<lparr>activeStep := Record\<rparr>
      else a\<lparr>activeStep := Setup\<rparr>)"

subsection \<open>Action invocation\<close>

definition ACTION_COOLDOWN_MS :: nat where
  "ACTION_COOLDOWN_MS = 2000"

text \<open>The body sent to the backend by \<open>interviewAPI.executeAction\<close>.\<close>

record request =
  req_session :: nat
  action_button :: ActionButton
  client_transcript :: string

text \<open>
  \<open>executeAction\<close> up to its \<open>await\<close>. The handler is a closure of one render of the
  component: it reads \<open>session\<close>, \<open>realtimeTranscript\<close> and \<open>actionCooldownUntil\<close> from
  the state \<open>render\<close> which that render saw, while its setters act on the current
  state \<open>a\<close>. \<open>now\<close> is what \<open>Date.now()\<close> returns in the cooldown check and \<open>now2\<close>
  what it returns when the expiry is computed. The result is the new state and the
  request issued, if any. The reset callback is registered with the delay
  \<open>ACTION_COOLDOWN_MS\<close> after the expiry has been computed, so it cannot run before the
  expiry.
\<close>

definition executeAction ::
  "nat \<Rightarrow> nat \<Rightarrow> ActionButton \<Rightarrow> app \<Rightarrow> app \<Rightarrow> app \<times> request option" where
  "executeAction now now2 button render a =
     (case session render of
        None \<Rightarrow> (a, None)
      | Some s \<Rightarrow>
          if trim (realtimeTranscript render) = [] then
            (a\<lparr>actionError := Some ''Transcript is empty.''\<rparr>, None)
          else if now < actionCooldownUntil render then
            (a\<lparr>actionError := Some ''Cooling down.''\<rparr>, None)
          else
            (let a1 = a\<lparr>actionLoading := True\<rparr>;
                 a2 = a1\<lparr>actionError := None\<rparr>;
                 expiresAt = now2 + ACTION_COOLDOWN_MS;
                 a3 = a2\<lparr>actionCooldownUntil := expiresAt\<rparr>;
                 a4 = a3\<lparr>timers := timers a3 @ [expiresAt]\<rparr>
             in (a4, Some \<lparr>req_session = session_id s, action_button = button,
                          client_transcript = realtimeTranscript render\<rparr>)))"

text \<open>The rest of \<open>executeAction\<close>, once the backend call has settled: the output is
  stored on success, the error detail (or the default text) on failure; \<open>finally\<close>
  clears the loading flag.\<close>

datatype action_reply = Succeeded "string option" | Failed "string option"

definition executeAction_settles :: "action_reply \<Rightarrow> app \<Rightarrow> app" where
  "executeAction_settles reply a =
     (case reply of
        Succeeded output \<Rightarrow>
          (let a1 = a\<lparr>actionOutput := or_default output []\<rparr> in a1\<lparr>actionLoading := False\<rparr>)
      | Failed detail \<Rightarrow>
          (let a1 = a\<lparr>actionError := Some (or_default detail ''Action failed'')\<rparr>
           in a1\<lparr>actionLoading := False\<rparr>))"

text \<open>The oldest pending reset callback runs, which it can from its due time on:
  \<open>setActionCooldownUntil(0)\<close>.\<close>

definition timerFires :: "nat \<Rightarrow> app \<Rightarrow> app option" where
  "timerFires now a =
     (case timers a of
        [] \<Rightarrow> None
      | due # rest \<Rightarrow>
          if due \<le> now then Some (a\<lparr>actionCooldownUntil := 0, timers := rest\<rparr>) else None)"

text \<open>
  What can happen to the component, one event at a time: a click on an action button, a
  pending backend call settling, a reset callback running, the recorder delivering a
  new transcript. The component renders again after every event, so a click runs the
  handler of a render that saw the current state. An event that cannot happen in a
  state (a callback before its due time) has no successor.
\<close>

datatype event =
    Invokes nat nat ActionButton
  | Settles action_reply
  | TimerFires nat
  | TranscriptUpdate string

fun occurs :: "event \<Rightarrow> app \<Rightarrow> (app \<times> request option) option" where
  "occurs (Invokes now now2 button) a = Some (executeAction now now2 button a a)"
| "occurs (Settles reply) a = Some (executeAction_settles reply a, None)"
| "occurs (TimerFires now) a =
     (case timerFires now a of None \<Rightarrow> None | Some a1 \<Rightarrow> Some (a1, None))"
| "occurs (TranscriptUpdate text) a = Some (a\<lparr>realtimeTranscript := text\<rparr>, None)"

fun run :: "event list \<Rightarrow> app \<Rightarrow> (app \<times> request list) option" where
  "run [] a = Some (a, [])"
| "run (e # es) a =
     (case occurs e a of
        None \<Rightarrow> None
      | Some (a1, r) \<Rightarrow>
          (case run es a1 of
             None \<Rightarrow> None
           | Some (a2, rs) \<Rightarrow> Some (a2, (case r of None \<Rightarrow> [] | Some q \<Rightarrow> [q]) @ rs)))"

text \<open>The clock readings of a list of events, and whether it contains a click or a
  reset callback.\<close>

fun event_times :: "event list \<Rightarrow> nat list" where
  "event_times [] = []"
| "event_times (Invokes now now2 button # es) = now # event_times es"
| "event_times (TimerFires now # es) = now # event_times es"
| "event_times (e # es) = event_times es"

fun is_Invokes :: "event \<Rightarrow> bool" where
  "is_Invokes (Invokes now now2 button) = True"
| "is_Invokes e = False"

fun is_TimerFires :: "event \<Rightarrow> bool" where
  "is_TimerFires (TimerFires now) = True"
| "is_TimerFires e = False"

text \<open>A signed-in user with session 7, no documents yet, and the live transcript
  \<open>Hello\<close>; no action has been run.\<close>

definition example_app :: app where
  "example_app =
     initial_app\<lparr> currentUser := Some 1,
                  session := Some \<lparr>session_id = 7, documents = None\<rparr>,
                  realtimeTranscript := ''Hello'' \<rparr>"

definition example_button :: ActionButton where
  "example_button =
     \<lparr> button_id = ''next_question'', label = ''Next question'', prompt = ''Suggest a question.'' \<rparr>"

section \<open>Citations shown with an answer (RagPanel.tsx)\<close>

text \<open>
  A JavaScript number is an IEEE 754 double. The numbers that occur here are integers
  that are doubles, and \<open>Infinity\<close>.
\<close>

datatype number = Num int | PosInfinity

text \<open>A citation as the panel reads it (its numeric \<open>distance\<close> is not read and is left
  out), and the same citation with the \<open>_displayIndex\<close> the panel adds. The optional
  \<open>index\<close> is a number.\<close>

record RagCitation =
  source_type :: string
  chunk_text :: string
  index :: "number option"

record DisplayedCitation = RagCitation +
  displayIndex :: number

text \<open>
  The loop \<open>while ((match = regex.exec(ragAnswer)) !== null)\<close> with the global regular
  expression \<open>\[(\d+)\]\<close>: the matcher looks for an opening bracket, the longest run of
  decimal digits after it, which must not be empty, and a closing bracket right after
  the run; after a match the search resumes behind the closing bracket, otherwise at the
  next character. \<open>exec_all\<close> lists the captured digit runs \<open>match[1]\<close> of the successive
  matches.
\<close>

definition isDigit :: "char \<Rightarrow> bool" where
  "isDigit c = (c \<in> set ''0123456789'')"

function exec_all :: "string \<Rightarrow> string list" where
  "exec_all [] = []"
| "exec_all (c # cs) =
     (if c = CHR ''['' then
        (case dropWhile isDigit cs of
           [] \<Rightarrow> exec_all cs
         | r # rest \<Rightarrow>
             if takeWhile isDigit cs \<noteq> [] \<and> r = CHR '']''
             then takeWhile isDigit cs # exec_all rest
             else exec_all cs)
      else exec_all cs)"
  by pat_completeness auto
termination
proof (relation "measure length")
  fix c :: char and cs r rest
  assume "dropWhile isDigit cs = r # rest"
  then have "length rest < length (dropWhile isDigit cs)" by simp
  also have "\<dots> \<le> length cs" by (rule length_dropWhile_le)
  finally show "(rest, c # cs) \<in> measure length" by simp
qed simp_all

text \<open>
  \<open>Number(match[1])\<close>. The natural number that a run of digits denotes is read
  exactly when it is below 2^53; from there on it
  is rounded to the nearest double, which keeps the 53 leading bits, a tie going to the
  even neighbour, and from 2^1024 on the result is \<open>Infinity\<close>. (This is the correctly
  rounded reading that the engines compute; beyond 20 significant digits the language
  standard would also admit a neighbouring double.) \<open>Number.isNaN\<close> is false for every
  such value, so each one is added to the set.
\<close>

definition decimal :: "string \<Rightarrow> nat" where
  "decimal ds = foldl (\<lambda>n c. 10 * n + (of_char c - 48)) 0 ds"

fun bit_length :: "nat \<Rightarrow> nat" where
  "bit_length n = (if n = 0 then 0 else Suc (bit_length (n div 2)))"

declare bit_length.simps [simp del]

definition to_double :: "nat \<Rightarrow> number" where
  "to_double n =
     (if n < 2 ^ 53 then Num (int n)
      else
        (let e = bit_length n - 53;
             q = n div 2 ^ e;
             r = n mod 2 ^ e;
             q1 = (if 2 ^ e < 2 * r \<or> (2 * r = 2 ^ e \<and> odd q) then q + 1 else q);
             v = q1 * 2 ^ e
         in if v < 2 ^ 1024 then Num (int v) else PosInfinity))"

definition Number :: "string \<Rightarrow> number" where
  "Number ds = to_double (decimal ds)"

definition cited :: "string \<Rightarrow> number set" where
  "cited ragAnswer = set (map Number (exec_all ragAnswer))"

definition withIndex :: "RagCitation list \<Rightarrow> DisplayedCitation list" where
  "withIndex ragCitations =
     map (\<lambda>(idx, c).
            \<lparr> source_type = source_type c, chunk_text = chunk_text c, index = index c,
              displayIndex = (case index c of Some i \<Rightarrow> i | None \<Rightarrow> Num (int idx + 1)) \<rparr>)
         (enumerate 0 ragCitations)"

definition filtered :: "string \<Rightarrow> RagCitation list \<Rightarrow> DisplayedCitation list" where
  "filtered ragAnswer ragCitations =
     (if cited ragAnswer \<noteq> {}
      then filter (\<lambda>c. displayIndex c \<in> cited ragAnswer) (withIndex ragCitations)
      else withIndex ragCitations)"

text \<open>
  The claim's own reading of the markers: the digit runs that stand in the answer
  between an opening and a closing bracket, one right after the other, and the integers
  \<open>n\<close> they denote.
\<close>

definition bracketed_runs :: "string \<Rightarrow> string set" where
  "bracketed_runs answer =
     {ds. \<exists>pre post. answer = pre @ [CHR ''[''] @ ds @ [CHR '']''] @ post \<and>
           ds \<noteq> [] \<and> list_all isDigit ds}"

definition bracketed_markers :: "string \<Rightarrow> nat set" where
  "bracketed_markers answer = decimal ` bracketed_runs answer"

text \<open>The runs that start right at the head of a text that follows an opening
  bracket.\<close>

definition runs_here :: "string \<Rightarrow> string set" where
  "runs_here cs =
     {ds. \<exists>post. cs = ds @ [CHR '']''] @ post \<and> ds \<noteq> [] \<and> list_all isDigit ds}"

text \<open>Three retrieved chunks without an explicit index.\<close>

definition example_citations :: "RagCitation list" where
  "example_citations =
     [\<lparr>source_type = ''cv'', chunk_text = ''Five years of Go'', index = None\<rparr>,
      \<lparr>source_type = ''jd'', chunk_text = ''Go required'', index = None\<rparr>,
      \<lparr>source_type = ''transcript'', chunk_text = ''I led the migration'', index = None\<rparr>]"

section \<open>Properties of the transcript accumulator\<close>

lemma handleMessages_append:
  "handleMessages (ms @ ns) this =
     (let (this1, out1) = handleMessages ms this;
          (this2, out2) = handleMessages ns this1
      in (this2, out1 @ out2))"
  by (induction ms arbitrary: this) (simp_all add: split_beta Let_def)

lemma handleMessages_snoc:
  "handleMessages ms this0 = (this, out) \<Longrightarrow> handleMessage m this = (this1, out1) \<Longrightarrow>
   handleMessages (ms @ [m]) this0 = (this1, out @ out1)"
  by (simp add: handleMessages_append)

lemma delta_types_iff:
  "(t \<in> Some ` set delta_types) =
     (t = Some ''conversation.item.input_audio_transcription.delta'' \<or>
      t = Some ''input_audio_transcription.delta'' \<or>
      t = Some ''audio.input.transcription.delta'' \<or>
      t = Some ''transcription.delta'')"
  by (auto simp: delta_types_def)

lemma completed_types_iff:
  "(t \<in> Some ` set completed_types) =
     (t = Some ''conversation.item.input_audio_transcription.completed'' \<or>
      t = Some ''input_audio_transcription.completed'' \<or>
      t = Some ''audio.input.transcription.completed'' \<or>
      t = Some ''transcription.completed'')"
  by (auto simp: completed_types_def)

lemma types_disjoint:
  "t \<in> Some ` set completed_types \<Longrightarrow> t \<notin> Some ` set delta_types"
  by (auto simp: completed_types_def delta_types_def)

text \<open>\<open>handleMessage\<close> by cases on the two allow-lists and the payload.\<close>

lemma handleMessage_cases:
  "handleMessage m this =
     (if msg_type m \<in> Some ` set delta_types then
        (if or_empty (msg_delta m) (msg_text m) = [] then (this, [])
         else (this\<lparr>partialText := partialText this @ or_empty (msg_delta m) (msg_text m)\<rparr>,
               [OnTranscript (finalText this @ partialText this @ or_empty (msg_delta m) (msg_text m)) False]))
      else if msg_type m \<in> Some ` set completed_types then
        (if or_empty (msg_transcript m) (msg_text m) = [] then (this, [])
         else (this\<lparr>finalText := (if finalText this = [] then or_empty (msg_transcript m) (msg_text m)
                                     else finalText this @ [CHR 0x0A] @ or_empty (msg_transcript m) (msg_text m)),
                    partialText := []\<rparr>,
               [OnFinalUtterance (or_empty (msg_transcript m) (msg_text m)),
                OnTranscript (if finalText this = [] then or_empty (msg_transcript m) (msg_text m)
                              else finalText this @ [CHR 0x0A] @ or_empty (msg_transcript m) (msg_text m)) True]))
      else (this, []))"
  unfolding delta_types_iff completed_types_iff handleMessage_def Let_def
  by simp

text \<open>
  Claim C1. Let any sequence of messages \<open>ms\<close> have been handled, leaving the service in
  state \<open>this\<close> with the effects \<open>out\<close>. If the next message is a partial delta carrying
  the non-empty text \<open>txt\<close>, then \<open>txt\<close> is appended to \<open>partialText\<close> and the one effect
  is the transcript \<open>finalText + partialText\<close> with \<open>isFinal = false\<close>. If it is a final
  utterance carrying the non-empty text \<open>txt\<close>, then \<open>finalText\<close> becomes \<open>txt\<close> when
  it was empty and \<open>finalText + "\n" + txt\<close> otherwise, \<open>partialText\<close> is reset to the
  empty string, and two effects follow: the per-utterance notification carrying exactly
  \<open>txt\<close>, and the transcript \<open>finalText\<close> with \<open>isFinal = true\<close>.
\<close>

theorem accumulator_folds_events:
  assumes "handleMessages ms this0 = (this, out)"
  shows "(msg_type m \<in> Some ` set delta_types \<and>
          or_empty (msg_delta m) (msg_text m) = txt \<and> txt \<noteq> [] \<longrightarrow>
            handleMessages (ms @ [m]) this0 =
              (this\<lparr>partialText := partialText this @ txt\<rparr>,
               out @ [OnTranscript (finalText this @ partialText this @ txt) False]))
       \<and> (msg_type m \<in> Some ` set completed_types \<and>
          or_empty (msg_transcript m) (msg_text m) = txt \<and> txt \<noteq> [] \<longrightarrow>
            handleMessages (ms @ [m]) this0 =
              (this\<lparr>finalText := (if finalText this = [] then txt
                                    else finalText this @ [CHR 0x0A] @ txt),
                    partialText := []\<rparr>,
               out @ [OnFinalUtterance txt,
                      OnTranscript (if finalText this = [] then txt
                                    else finalText this @ [CHR 0x0A] @ txt) True]))"
proof (intro conjI impI)
  assume h: "msg_type m \<in> Some ` set delta_types \<and>
          or_empty (msg_delta m) (msg_text m) = txt \<and> txt \<noteq> []"
  then have "handleMessage m this = (this\<lparr>partialText := partialText this @ txt\<rparr>,
               [OnTranscript (finalText this @ partialText this @ txt) False])"
    by (simp add: handleMessage_cases)
  from handleMessages_snoc [OF assms this] show "handleMessages (ms @ [m]) this0 =
              (this\<lparr>partialText := partialText this @ txt\<rparr>,
               out @ [OnTranscript (finalText this @ partialText this @ txt) False])" .
next
  assume h: "msg_type m \<in> Some ` set completed_types \<and>
          or_empty (msg_transcript m) (msg_text m) = txt \<and> txt \<noteq> []"
  then have nd: "msg_type m \<notin> Some ` set delta_types" using types_disjoint by blast
  have "handleMessage m this = (this\<lparr>finalText := (if finalText this = [] then txt
                                    else finalText this @ [CHR 0x0A] @ txt),
                    partialText := []\<rparr>,
               [OnFinalUtterance txt,
                      OnTranscript (if finalText this = [] then txt
                                    else finalText this @ [CHR 0x0A] @ txt) True])"
    using h nd by (simp add: handleMessage_cases)
  from handleMessages_snoc [OF assms this] show "handleMessages (ms @ [m]) this0 =
              (this\<lparr>finalText := (if finalText this = [] then txt
                                    else finalText this @ [CHR 0x0A] @ txt),
                    partialText := []\<rparr>,
               out @ [OnFinalUtterance txt,
                      OnTranscript (if finalText this = [] then txt
                                    else finalText this @ [CHR 0x0A] @ txt) True])" by simp
qed

text \<open>A fresh service receives the delta \<open>Hi\<close>, then the completed utterance \<open>Hi.\<close>,
  then the completed utterance \<open>Bye\<close>.\<close>

theorem accumulator_folds_events_witness:
  "handleMessages
     ([\<lparr>msg_type = Some ''transcription.delta'', msg_delta = Some ''Hi'',
        msg_text = None, msg_transcript = None\<rparr>,
       \<lparr>msg_type = Some ''transcription.completed'', msg_delta = None,
        msg_text = None, msg_transcript = Some ''Hi.''\<rparr>] @
      [\<lparr>msg_type = Some ''input_audio_transcription.completed'', msg_delta = None,
        msg_text = Some ''Bye'', msg_transcript = None\<rparr>])
     constructor =
   (constructor\<lparr>finalText := ''Hi.'' @ [CHR 0x0A] @ ''Bye'', partialText := []\<rparr>,
    [OnTranscript ''Hi'' False, OnFinalUtterance ''Hi.'', OnTranscript ''Hi.'' True,
     OnFinalUtterance ''Bye'', OnTranscript (''Hi.'' @ [CHR 0x0A] @ ''Bye'') True])"
proof -
  have run: "handleMessages
     [\<lparr>msg_type = Some ''transcription.delta'', msg_delta = Some ''Hi'',
        msg_text = None, msg_transcript = None\<rparr>,
       \<lparr>msg_type = Some ''transcription.completed'', msg_delta = None,
        msg_text = None, msg_transcript = Some ''Hi.''\<rparr>]
     constructor =
       (constructor\<lparr>finalText := ''Hi.'', partialText := []\<rparr>,
        [OnTranscript ''Hi'' False, OnFinalUtterance ''Hi.'', OnTranscript ''Hi.'' True])"
    by (simp add: handleMessage_def or_empty_def constructor_def Let_def)
  show ?thesis
    using accumulator_folds_events [OF run,
        of "\<lparr>msg_type = Some ''input_audio_transcription.completed'', msg_delta = None,
             msg_text = Some ''Bye'', msg_transcript = None\<rparr>" "''Bye''"]
    by (simp add: completed_types_def or_empty_def constructor_def)
qed

lemma utterances_append: "utterances (xs @ ys) = utterances xs @ utterances ys"
  by (induction xs rule: utterances.induct) simp_all

lemma final_transcripts_append:
  "final_transcripts (xs @ ys) = final_transcripts xs @ final_transcripts ys"
  by (induction xs rule: final_transcripts.induct) simp_all

lemma join_lines_snoc:
  "join_lines (us @ [u]) = (if us = [] then u else join_lines us @ [CHR 0x0A] @ u)"
  by (induction us rule: join_lines.induct) simp_all

lemma join_lines_empty: "[] \<notin> set us \<Longrightarrow> (join_lines us = []) = (us = [])"
  by (induction us rule: join_lines.induct) auto

lemma tl_prefixes_snoc: "tl (prefixes (us @ [u])) = tl (prefixes us) @ [us @ [u]]"
  by (cases us) simp_all

text \<open>One message either leaves both streams alone or adds one non-empty utterance to
  the utterance stream and the new \<open>finalText\<close> to the final-transcript stream.\<close>

lemma handleMessage_streams:
  "handleMessage m this = (this1, out1) \<Longrightarrow>
     (finalText this1 = finalText this \<and> utterances out1 = [] \<and> final_transcripts out1 = []) \<or>
     (\<exists>t. t \<noteq> [] \<and>
          finalText this1 = (if finalText this = [] then t else finalText this @ [CHR 0x0A] @ t) \<and>
          utterances out1 = [t] \<and> final_transcripts out1 = [finalText this1])"
  by (auto simp: handleMessage_cases split: if_splits)

lemma streams_invariant:
  "handleMessages ms constructor = (this, out) \<Longrightarrow>
     finalText this = join_lines (utterances out) \<and> [] \<notin> set (utterances out) \<and>
     final_transcripts out = map join_lines (tl (prefixes (utterances out)))"
proof (induction ms arbitrary: this out rule: rev_induct)
  case Nil
  then show ?case by (auto simp: constructor_def)
next
  case (snoc m ms)
  obtain s o1 where run: "handleMessages ms constructor = (s, o1)"
    by (cases "handleMessages ms constructor")
  obtain s1 o2 where step: "handleMessage m s = (s1, o2)"
    by (cases "handleMessage m s")
  from handleMessages_snoc [OF run step] snoc.prems
  have eq: "this = s1" "out = o1 @ o2" by simp_all
  note ih = snoc.IH [OF run]
  from handleMessage_streams [OF step] show ?case
  proof
    assume "finalText s1 = finalText s \<and> utterances o2 = [] \<and> final_transcripts o2 = []"
    with ih eq show ?thesis by (simp add: utterances_append final_transcripts_append)
  next
    assume "\<exists>t. t \<noteq> [] \<and>
          finalText s1 = (if finalText s = [] then t else finalText s @ [CHR 0x0A] @ t) \<and>
          utterances o2 = [t] \<and> final_transcripts o2 = [finalText s1]"
    then obtain t where t: "t \<noteq> []"
       "finalText s1 = (if finalText s = [] then t else finalText s @ [CHR 0x0A] @ t)"
       "utterances o2 = [t]" "final_transcripts o2 = [finalText s1]" by blast
    have e: "(finalText s = []) = (utterances o1 = [])"
      using ih join_lines_empty by simp
    have f: "finalText s1 = join_lines (utterances o1 @ [t])"
      using t(2) e ih by (simp add: join_lines_snoc)
    show ?thesis
      using ih eq t(1,3,4) f
      by (simp add: utterances_append final_transcripts_append tl_prefixes_snoc)
  qed
qed

text \<open>
  Claim C7. For every sequence of messages handled by one service instance (one recording
  session, starting from the constructor's empty buffers), the utterances notified through
  \<open>onFinalUtterance\<close>, joined with newlines in emission order, are exactly \<open>finalText\<close>.
  The full-transcript stream agrees with the utterance stream throughout: the k-th
  transcript emitted with \<open>isFinal = true\<close> is the newline-join of the first k
  utterances, so no utterance is lost or duplicated between the two streams.
\<close>

theorem utterances_reconstruct_finalText:
  "finalText (fst (handleMessages ms constructor)) =
     join_lines (utterances (snd (handleMessages ms constructor))) \<and>
   final_transcripts (snd (handleMessages ms constructor)) =
     map join_lines (tl (prefixes (utterances (snd (handleMessages ms constructor)))))"
  using streams_invariant [of ms "fst (handleMessages ms constructor)"
      "snd (handleMessages ms constructor)"]
  by simp

theorem utterances_reconstruct_finalText_witness:
  "utterances (snd (handleMessages
     [\<lparr>msg_type = Some ''transcription.delta'', msg_delta = Some ''Hi'',
        msg_text = None, msg_transcript = None\<rparr>,
      \<lparr>msg_type = Some ''transcription.completed'', msg_delta = None,
        msg_text = None, msg_transcript = Some ''Hi.''\<rparr>,
      \<lparr>msg_type = Some ''input_audio_transcription.completed'', msg_delta = None,
        msg_text = Some ''Bye'', msg_transcript = None\<rparr>] constructor)) = [''Hi.'', ''Bye''] \<and>
   finalText (fst (handleMessages
     [\<lparr>msg_type = Some ''transcription.delta'', msg_delta = Some ''Hi'',
        msg_text = None, msg_transcript = None\<rparr>,
      \<lparr>msg_type = Some ''transcription.completed'', msg_delta = None,
        msg_text = None, msg_transcript = Some ''Hi.''\<rparr>,
      \<lparr>msg_type = Some ''input_audio_transcription.completed'', msg_delta = None,
        msg_text = Some ''Bye'', msg_transcript = None\<rparr>] constructor)) =
     ''Hi.'' @ [CHR 0x0A] @ ''Bye'' \<and>
   final_transcripts (snd (handleMessages
     [\<lparr>msg_type = Some ''transcription.delta'', msg_delta = Some ''Hi'',
        msg_text = None, msg_transcript = None\<rparr>,
      \<lparr>msg_type = Some ''transcription.completed'', msg_delta = None,
        msg_text = None, msg_transcript = Some ''Hi.''\<rparr>,
      \<lparr>msg_type = Some ''input_audio_transcription.completed'', msg_delta = None,
        msg_text = Some ''Bye'', msg_transcript = None\<rparr>] constructor)) =
     [''Hi.'', ''Hi.'' @ [CHR 0x0A] @ ''Bye'']"
proof -
  have u: "utterances (snd (handleMessages
     [\<lparr>msg_type = Some ''transcription.delta'', msg_delta = Some ''Hi'',
        msg_text = None, msg_transcript = None\<rparr>,
      \<lparr>msg_type = Some ''transcription.completed'', msg_delta = None,
        msg_text = None, msg_transcript = Some ''Hi.''\<rparr>,
      \<lparr>msg_type = Some ''input_audio_transcription.completed'', msg_delta = None,
        msg_text = Some ''Bye'', msg_transcript = None\<rparr>] constructor)) = [''Hi.'', ''Bye'']"
    by (simp add: handleMessage_def or_empty_def constructor_def Let_def)
  show ?thesis
    using utterances_reconstruct_finalText [of
     "[\<lparr>msg_type = Some ''transcription.delta'', msg_delta = Some ''Hi'',
        msg_text = None, msg_transcript = None\<rparr>,
      \<lparr>msg_type = Some ''transcription.completed'', msg_delta = None,
        msg_text = None, msg_transcript = Some ''Hi.''\<rparr>,
      \<lparr>msg_type = Some ''input_audio_transcription.completed'', msg_delta = None,
        msg_text = Some ''Bye'', msg_transcript = None\<rparr>]"]
    unfolding u by simp
qed

lemma json_decodes_handleMessage: "json_decodes (snd (handleMessage m this)) = 0"
  by (simp add: handleMessage_cases)

lemma onmessage_eq:
  "onmessage JSON_parse decode raw this =
     (case JSON_parse (frame_text decode raw) of
        None \<Rightarrow> (this, [JSONParse (frame_text decode raw)])
      | Some m \<Rightarrow> (fst (handleMessage m this),
                   JSONParse (frame_text decode raw) # snd (handleMessage m this)))"
  by (simp add: onmessage_def frame_text_def Let_def split_beta split: frame.splits option.splits)

lemma or_empty_Nil:
  "(or_empty a b = []) = ((a = None \<or> a = Some []) \<and> (b = None \<or> b = Some []))"
  by (auto simp: or_empty_def split: option.splits)

text \<open>
  Claim C8. For every inbound frame and every behaviour of the platform's decoders, the
  handler returns (it has no error outcome: its \<open>catch\<close> swallows every exception) after
  exactly one call of \<open>JSON.parse\<close>. If the frame is not JSON, or its type is in neither
  allow-list, or it is a delta whose \<open>delta\<close> and \<open>text\<close> are both absent or empty, or a
  completion whose \<open>transcript\<close> and \<open>text\<close> are both absent or empty, then the service
  state is unchanged and the decode is the only effect: no callback is invoked.
\<close>

theorem onmessage_drops_noise:
  "json_decodes (snd (onmessage JSON_parse decode raw this)) = 1 \<and>
   ((JSON_parse (frame_text decode raw) = None \<or>
     (\<exists>m. JSON_parse (frame_text decode raw) = Some m \<and>
        (msg_type m \<notin> Some ` set delta_types \<and> msg_type m \<notin> Some ` set completed_types \<or>
         msg_type m \<in> Some ` set delta_types \<and>
           (msg_delta m = None \<or> msg_delta m = Some []) \<and>
           (msg_text m = None \<or> msg_text m = Some []) \<or>
         msg_type m \<in> Some ` set completed_types \<and>
           (msg_transcript m = None \<or> msg_transcript m = Some []) \<and>
           (msg_text m = None \<or> msg_text m = Some []))))
    \<longrightarrow> onmessage JSON_parse decode raw this = (this, [JSONParse (frame_text decode raw)]))"
proof (intro conjI impI)
  show "json_decodes (snd (onmessage JSON_parse decode raw this)) = 1"
    by (simp add: onmessage_eq json_decodes_handleMessage split: option.splits)
next
  assume h: "JSON_parse (frame_text decode raw) = None \<or>
     (\<exists>m. JSON_parse (frame_text decode raw) = Some m \<and>
        (msg_type m \<notin> Some ` set delta_types \<and> msg_type m \<notin> Some ` set completed_types \<or>
         msg_type m \<in> Some ` set delta_types \<and>
           (msg_delta m = None \<or> msg_delta m = Some []) \<and>
           (msg_text m = None \<or> msg_text m = Some []) \<or>
         msg_type m \<in> Some ` set completed_types \<and>
           (msg_transcript m = None \<or> msg_transcript m = Some []) \<and>
           (msg_text m = None \<or> msg_text m = Some [])))"
  then show "onmessage JSON_parse decode raw this = (this, [JSONParse (frame_text decode raw)])"
  proof
    assume "JSON_parse (frame_text decode raw) = None"
    then show ?thesis by (simp add: onmessage_eq)
  next
    assume "\<exists>m. JSON_parse (frame_text decode raw) = Some m \<and>
        (msg_type m \<notin> Some ` set delta_types \<and> msg_type m \<notin> Some ` set completed_types \<or>
         msg_type m \<in> Some ` set delta_types \<and>
           (msg_delta m = None \<or> msg_delta m = Some []) \<and>
           (msg_text m = None \<or> msg_text m = Some []) \<or>
         msg_type m \<in> Some ` set completed_types \<and>
           (msg_transcript m = None \<or> msg_transcript m = Some []) \<and>
           (msg_text m = None \<or> msg_text m = Some []))"
    then obtain m where p: "JSON_parse (frame_text decode raw) = Some m"
      and c: "msg_type m \<notin> Some ` set delta_types \<and> msg_type m \<notin> Some ` set completed_types \<or>
         msg_type m \<in> Some ` set delta_types \<and> or_empty (msg_delta m) (msg_text m) = [] \<or>
         msg_type m \<in> Some ` set completed_types \<and> or_empty (msg_transcript m) (msg_text m) = []"
      unfolding or_empty_Nil by blast
    from c have "handleMessage m this = (this, [])"
      using types_disjoint [of "msg_type m"] by (auto simp: handleMessage_cases)
    with p show ?thesis by (simp add: onmessage_eq)
  qed
qed

text \<open>A keep-alive \<open>{type: ping}\<close> arriving as a string frame while a partial is pending:
  one decode, nothing else, state untouched.\<close>

theorem onmessage_drops_noise_witness:
  "onmessage (\<lambda>s. if s = ''{type:ping}'' then
                    Some \<lparr>msg_type = Some ''ping'', msg_delta = None, msg_text = None,
                          msg_transcript = None\<rparr>
                  else None)
             (\<lambda>bytes. bytes) (StringFrame ''{type:ping}'')
             (constructor\<lparr>partialText := ''Hi''\<rparr>) =
     (constructor\<lparr>partialText := ''Hi''\<rparr>, [JSONParse ''{type:ping}''])"
  using onmessage_drops_noise [of
      "\<lambda>s. if s = ''{type:ping}'' then
                    Some \<lparr>msg_type = Some ''ping'', msg_delta = None, msg_text = None,
                          msg_transcript = None\<rparr>
                  else None" "\<lambda>bytes. bytes" "StringFrame ''{type:ping}''"
      "constructor\<lparr>partialText := ''Hi''\<rparr>"]
  by (simp add: frame_text_def delta_types_def completed_types_def)

section \<open>Properties of the transport session\<close>

lemma sdp_posts_append: "sdp_posts (xs @ ys) = sdp_posts xs @ sdp_posts ys"
  by (induction xs rule: sdp_posts.induct) simp_all

lemma sdp_posts_AddTrack: "sdp_posts (map AddTrack ts) = []"
  by (induction ts) simp_all

lemma sdp_posts_postSdp: "sdp_posts (snd (postSdp pf url sdp beta)) = [(url, sdp, beta)]"
  by (simp add: postSdp_def split: settled.splits)

lemma sdp_posts_negotiate:
  "sdp_posts (snd (negotiate pf url sdp)) =
     (case fst (postSdp pf url sdp False) of
        Rejected e \<Rightarrow> [(url, sdp, False)]
      | Fulfilled a \<Rightarrow> if a = [] then [(url, sdp, False), (url, sdp, True)] else [(url, sdp, False)])"
  using sdp_posts_postSdp [of pf url sdp False] sdp_posts_postSdp [of pf url sdp True]
  by (auto simp: negotiate_def sdp_posts_append split: prod.splits settled.splits)

lemma negotiate_at_most_two:
  "negotiate pf url sdp = (r, l) \<Longrightarrow> length (sdp_posts l) \<le> 2"
  using sdp_posts_negotiate [of pf url sdp]
  by (auto split: settled.splits if_splits)

lemma sdp_posts_createRealtimeSession: "sdp_posts (snd (snd (createRealtimeSession pf this))) = []"
  by (simp add: createRealtimeSession_def Let_def split: settled.splits)

lemma sdp_posts_createWebRTCConnection:
  "length (sdp_posts (snd (snd (createWebRTCConnection pf this)))) \<le> 2"
  by (auto simp: createWebRTCConnection_def Let_def sdp_posts_append sdp_posts_AddTrack
      split: settled.splits prod.splits dest: negotiate_at_most_two)

lemma sdp_posts_connect:
  "sdp_posts (snd (snd (connect pf this))) =
     (case createRealtimeSession pf this of
        (Threw e, this1, log1) \<Rightarrow> []
      | (Resolved, this1, log1) \<Rightarrow> sdp_posts (snd (snd (createWebRTCConnection pf this1))))"
  using sdp_posts_createRealtimeSession [of pf this]
  by (auto simp: connect_def sdp_posts_append split: prod.splits outcome.splits)

lemma connect_at_most_two_posts: "length (sdp_posts (snd (snd (connect pf this)))) \<le> 2"
  using sdp_posts_createWebRTCConnection [of pf]
  by (auto simp: sdp_posts_connect split: prod.splits outcome.splits)

lemma or_default_truthy:
  "or_default (if truthy v then v else None) d = or_default v d"
  by (auto simp: or_default_def truthy_def split: option.splits)

lemma negotiate_first_rejected:
  assumes "sdp_fetch pf url sdp False = Fulfilled res1" "\<not> res_ok res1 \<or> res_text res1 = []"
  shows "negotiate pf url sdp =
           (fst (postSdp pf url sdp True), [PostSdp url sdp False, PostSdp url sdp True])"
  using assms by (auto simp: negotiate_def postSdp_def split: settled.splits)

lemma negotiate_first_accepted:
  assumes "sdp_fetch pf url sdp False = Fulfilled res1" "res_ok res1" "res_text res1 \<noteq> []"
  shows "negotiate pf url sdp = (Fulfilled (res_text res1), [PostSdp url sdp False])"
  using assms by (auto simp: negotiate_def postSdp_def split: settled.splits)

lemma postSdp_rejected:
  assumes "sdp_fetch pf url sdp beta = Fulfilled res" "\<not> res_ok res \<or> res_text res = []"
  shows "fst (postSdp pf url sdp beta) = Fulfilled []"
  using assms by (auto simp: postSdp_def)

text \<open>When every step before the negotiation succeeds, the posts of \<open>connect\<close> are those
  of \<open>negotiate\<close>, and an empty answer that the browser rejects makes \<open>connect\<close> throw
  the browser's error after reporting it.\<close>

lemma connect_reaches_negotiation:
  assumes "session_fetch pf = Fulfilled r" "res_ok r" "session_json pf = Fulfilled data"
    "truthy (client_token data)" "getUserMedia pf = Fulfilled tracks"
    "createOffer pf = Fulfilled offer" "setLocalDescription pf offer = Fulfilled u"
    "negotiate pf (or_default (webrtc_sdp_url data) ''https://api.openai.com/v1/realtime/calls'')
        (or_default offer []) = (r5, log5)"
  shows "sdp_posts (snd (snd (connect pf this))) = sdp_posts log5 \<and>
         (\<forall>e. r5 = Fulfilled [] \<and> setRemoteDescription pf [] = Rejected e \<longrightarrow>
            fst (connect pf this) = Threw e \<and>
            last (snd (snd (connect pf this))) =
              OnError (or_default (Some e) ''Failed to connect to realtime''))"
  using assms
  by (auto simp: connect_def createRealtimeSession_def createWebRTCConnection_def Let_def
      or_default_truthy sdp_posts_append sdp_posts_AddTrack split: settled.splits prod.splits)

text \<open>
  Claim C5. \<open>connect\<close> never posts the offer more than twice. When the steps before the
  negotiation succeed and the first post is answered: if the answer is accepted (status
  ok, non-empty body) it is the only post; if it is rejected (status not ok, or an empty
  body) exactly one more post is made, to the same URL with the same offer and with the
  beta header. If that retry is rejected as well, the empty answer goes to
  \<open>setRemoteDescription\<close>; with a browser that rejects the empty answer description,
  \<open>connect\<close> reports the error through \<open>onError\<close> and throws it.
\<close>

theorem negotiation_retries_once:
  "length (sdp_posts (snd (snd (connect pf this)))) \<le> 2 \<and>
   (session_fetch pf = Fulfilled r \<and> res_ok r \<and> session_json pf = Fulfilled data \<and>
    truthy (client_token data) \<and> getUserMedia pf = Fulfilled tracks \<and>
    createOffer pf = Fulfilled offer \<and> setLocalDescription pf offer = Fulfilled () \<and>
    url = or_default (webrtc_sdp_url data) ''https://api.openai.com/v1/realtime/calls'' \<and>
    sdp = or_default offer [] \<and>
    sdp_fetch pf url sdp False = Fulfilled res1 \<longrightarrow>
      (res_ok res1 \<and> res_text res1 \<noteq> [] \<longrightarrow>
         sdp_posts (snd (snd (connect pf this))) = [(url, sdp, False)]) \<and>
      (\<not> res_ok res1 \<or> res_text res1 = [] \<longrightarrow>
         sdp_posts (snd (snd (connect pf this))) = [(url, sdp, False), (url, sdp, True)] \<and>
         (\<forall>res2 e. sdp_fetch pf url sdp True = Fulfilled res2 \<and>
                   (\<not> res_ok res2 \<or> res_text res2 = []) \<and>
                   setRemoteDescription pf [] = Rejected e \<longrightarrow>
            fst (connect pf this) = Threw e \<and>
            last (snd (snd (connect pf this))) =
              OnError (or_default (Some e) ''Failed to connect to realtime''))))"
proof (intro conjI impI)
  show "length (sdp_posts (snd (snd (connect pf this)))) \<le> 2"
    by (rule connect_at_most_two_posts)
next
  assume pre: "session_fetch pf = Fulfilled r \<and> res_ok r \<and> session_json pf = Fulfilled data \<and>
    truthy (client_token data) \<and> getUserMedia pf = Fulfilled tracks \<and>
    createOffer pf = Fulfilled offer \<and> setLocalDescription pf offer = Fulfilled () \<and>
    url = or_default (webrtc_sdp_url data) ''https://api.openai.com/v1/realtime/calls'' \<and>
    sdp = or_default offer [] \<and>
    sdp_fetch pf url sdp False = Fulfilled res1"
  assume acc: "res_ok res1 \<and> res_text res1 \<noteq> []"
  have n: "negotiate pf url sdp = (Fulfilled (res_text res1), [PostSdp url sdp False])"
    using pre acc negotiate_first_accepted by blast
  show "sdp_posts (snd (snd (connect pf this))) = [(url, sdp, False)]"
    using connect_reaches_negotiation [of pf r data tracks offer "()" "Fulfilled (res_text res1)"
        "[PostSdp url sdp False]" this] pre n
    by simp
next
  assume pre: "session_fetch pf = Fulfilled r \<and> res_ok r \<and> session_json pf = Fulfilled data \<and>
    truthy (client_token data) \<and> getUserMedia pf = Fulfilled tracks \<and>
    createOffer pf = Fulfilled offer \<and> setLocalDescription pf offer = Fulfilled () \<and>
    url = or_default (webrtc_sdp_url data) ''https://api.openai.com/v1/realtime/calls'' \<and>
    sdp = or_default offer [] \<and>
    sdp_fetch pf url sdp False = Fulfilled res1"
  assume rej: "\<not> res_ok res1 \<or> res_text res1 = []"
  have n: "negotiate pf url sdp =
             (fst (postSdp pf url sdp True), [PostSdp url sdp False, PostSdp url sdp True])"
    using pre rej negotiate_first_rejected by blast
  note reach = connect_reaches_negotiation [of pf r data tracks offer "()"
        "fst (postSdp pf url sdp True)" "[PostSdp url sdp False, PostSdp url sdp True]" this]
  show "sdp_posts (snd (snd (connect pf this))) = [(url, sdp, False), (url, sdp, True)]"
    using reach pre n by simp
  show "\<forall>res2 e. sdp_fetch pf url sdp True = Fulfilled res2 \<and>
                   (\<not> res_ok res2 \<or> res_text res2 = []) \<and>
                   setRemoteDescription pf [] = Rejected e \<longrightarrow>
            fst (connect pf this) = Threw e \<and>
            last (snd (snd (connect pf this))) =
              OnError (or_default (Some e) ''Failed to connect to realtime'')"
  proof (intro allI impI)
    fix res2 e
    assume h: "sdp_fetch pf url sdp True = Fulfilled res2 \<and>
                   (\<not> res_ok res2 \<or> res_text res2 = []) \<and>
                   setRemoteDescription pf [] = Rejected e"
    then have "fst (postSdp pf url sdp True) = Fulfilled []"
      using postSdp_rejected by blast
    then show "fst (connect pf this) = Threw e \<and>
            last (snd (snd (connect pf this))) =
              OnError (or_default (Some e) ''Failed to connect to realtime'')"
      using reach pre n h by simp
  qed
qed

text \<open>With the platform whose negotiation endpoint answers 400 to both posts: two posts,
  the second with the beta header, then \<open>connect\<close> throws the browser's error.\<close>

theorem negotiation_retries_once_witness:
  "sdp_posts (snd (snd (connect rejecting_platform constructor))) =
     [(''https://api.openai.com/v1/realtime/calls'', ''v=0'', False),
      (''https://api.openai.com/v1/realtime/calls'', ''v=0'', True)] \<and>
   fst (connect rejecting_platform constructor) = Threw ''Failed to parse SessionDescription'' \<and>
   last (snd (snd (connect rejecting_platform constructor))) =
     OnError ''Failed to parse SessionDescription''"
  using negotiation_retries_once [of rejecting_platform constructor
      "\<lparr>res_ok = True, res_status = ''200'', res_text = []\<rparr>"
      "\<lparr>client_token = Some ''tok'', webrtc_sdp_url = None\<rparr>" "[2]" "Some ''v=0''"
      "''https://api.openai.com/v1/realtime/calls''" "''v=0''"
      "\<lparr>res_ok = False, res_status = ''400'', res_text = ''unsupported''\<rparr>"]
  by (simp add: rejecting_platform_def truthy_def or_default_def)

lemma all_before_append:
  "all_before P Q (xs @ ys) =
     (all_before P Q xs \<and> all_before P Q ys \<and> (list_ex Q xs \<longrightarrow> \<not> list_ex P ys))"
  by (induction xs) auto

lemma all_before_none: "\<not> list_ex Q es \<Longrightarrow> all_before P Q es"
  by (induction es) auto

lemma all_before_no_first: "\<not> list_ex P es \<Longrightarrow> all_before P Q es"
  by (induction es) auto

lemma list_ex_TrackStop [simp]:
  "list_ex is_TrackStop (map TrackStop ts) = (ts \<noteq> [])"
  "list_ex is_DataChannelClose (map TrackStop ts) = False"
  "list_ex is_PeerConnectionClose (map TrackStop ts) = False"
  by (induction ts) auto

lemma disconnect_log:
  "snd (snd (disconnect this)) =
     (case dataChannel this of Some dc \<Rightarrow> [DataChannelClose dc] | None \<Rightarrow> []) @
     (case peerConnection this of Some pc \<Rightarrow> [PeerConnectionClose pc] | None \<Rightarrow> []) @
     (case micStream this of Some tracks \<Rightarrow> map TrackStop tracks | None \<Rightarrow> []) @
     [OnDisconnect]"
  by (simp add: disconnect_def Let_def)

lemma connect_rejecting_platform:
  "connect rejecting_platform constructor =
     (Threw ''Failed to parse SessionDescription'',
      constructor\<lparr>clientToken := Some ''tok'', peerConnection := Some 0,
                  dataChannel := Some 1, micStream := Some [2]\<rparr>,
      [FetchRealtimeSession, NewRTCPeerConnection 0, CreateDataChannel 1, GetUserMedia,
       AddTrack 2, CreateOffer, SetLocalDescription ''v=0'',
       PostSdp ''https://api.openai.com/v1/realtime/calls'' ''v=0'' False,
       PostSdp ''https://api.openai.com/v1/realtime/calls'' ''v=0'' True,
       SetRemoteDescription [], OnError ''Failed to parse SessionDescription''])"
  by (simp add: connect_def createRealtimeSession_def createWebRTCConnection_def negotiate_def
      postSdp_def rejecting_platform_def constructor_def truthy_def or_default_def Let_def)

text \<open>
  Claim C2, as stated: shutdown stops the local media tracks first, then closes the event
  channel, then closes the transport. On a service holding a transport (handle 0), a
  channel (handle 1) and a one-track microphone stream (handle 2), the track is stopped
  after the channel and the transport are closed, so the stated order does not hold.
\<close>

theorem disconnect_tracks_first_counterexample:
  "\<not> (all_before is_TrackStop is_DataChannelClose
        (snd (snd (disconnect (constructor\<lparr>peerConnection := Some 0, dataChannel := Some 1,
                                            micStream := Some [2]\<rparr>)))) \<and>
      all_before is_DataChannelClose is_PeerConnectionClose
        (snd (snd (disconnect (constructor\<lparr>peerConnection := Some 0, dataChannel := Some 1,
                                            micStream := Some [2]\<rparr>)))))"
  by (simp add: disconnect_def constructor_def Let_def)

text \<open>
  Claim C2, amended. For every state of the service, \<open>disconnect\<close> performs the teardown
  in this order: it closes the event channel (when there is one), then closes the
  transport (when there is one), then stops every local media track (when a stream was
  acquired), then signals \<open>onDisconnect\<close>; nothing else happens.
\<close>

theorem disconnect_order:
  "snd (snd (disconnect this)) =
     (case dataChannel this of Some dc \<Rightarrow> [DataChannelClose dc] | None \<Rightarrow> []) @
     (case peerConnection this of Some pc \<Rightarrow> [PeerConnectionClose pc] | None \<Rightarrow> []) @
     (case micStream this of Some tracks \<Rightarrow> map TrackStop tracks | None \<Rightarrow> []) @
     [OnDisconnect] \<and>
   all_before is_DataChannelClose is_PeerConnectionClose (snd (snd (disconnect this))) \<and>
   all_before is_PeerConnectionClose is_TrackStop (snd (snd (disconnect this))) \<and>
   all_before is_DataChannelClose is_TrackStop (snd (snd (disconnect this)))"
proof (intro conjI)
  show "snd (snd (disconnect this)) =
     (case dataChannel this of Some dc \<Rightarrow> [DataChannelClose dc] | None \<Rightarrow> []) @
     (case peerConnection this of Some pc \<Rightarrow> [PeerConnectionClose pc] | None \<Rightarrow> []) @
     (case micStream this of Some tracks \<Rightarrow> map TrackStop tracks | None \<Rightarrow> []) @
     [OnDisconnect]"
    by (rule disconnect_log)
  show "all_before is_DataChannelClose is_PeerConnectionClose (snd (snd (disconnect this)))"
    unfolding disconnect_log
    by (simp add: all_before_append all_before_none split: option.splits)
  show "all_before is_PeerConnectionClose is_TrackStop (snd (snd (disconnect this)))"
    unfolding disconnect_log
    by (simp add: all_before_append all_before_no_first split: option.splits)
  show "all_before is_DataChannelClose is_TrackStop (snd (snd (disconnect this)))"
    unfolding disconnect_log
    by (simp add: all_before_append all_before_no_first split: option.splits)
qed

theorem disconnect_order_witness:
  "snd (snd (disconnect (constructor\<lparr>peerConnection := Some 0, dataChannel := Some 1,
                                      micStream := Some [2, 3]\<rparr>))) =
     [DataChannelClose 1, PeerConnectionClose 0, TrackStop 2, TrackStop 3, OnDisconnect]"
  using disconnect_order [of "constructor\<lparr>peerConnection := Some 0, dataChannel := Some 1,
                                      micStream := Some [2, 3]\<rparr>"]
  by (simp add: constructor_def)

text \<open>The two parts of \<open>createWebRTCConnection\<close>, run one after the other with nothing
  in between, are \<open>createWebRTCConnection\<close>.\<close>

lemma createWebRTCConnection_parts:
  "createWebRTCConnection pf this =
     (case createWebRTCConnection_suspends pf this of
        (Some out, this1, log1) \<Rightarrow> (out, this1, log1)
      | (None, this1, log1) \<Rightarrow>
          (case createWebRTCConnection_resumes pf this1 of
             (out, this2, log2) \<Rightarrow> (out, this2, log1 @ log2)))"
  by (simp add: createWebRTCConnection_def createWebRTCConnection_suspends_def
      createWebRTCConnection_resumes_def Let_def split: settled.splits prod.splits)

lemma connect_disconnected_rejecting_platform:
  "connect_disconnected_at_getUserMedia rejecting_platform constructor =
     (Threw ''Cannot read properties of null (reading createOffer)'',
      constructor\<lparr>clientToken := Some ''tok'', micStream := Some [2]\<rparr>,
      [FetchRealtimeSession, NewRTCPeerConnection 0, CreateDataChannel 1, GetUserMedia,
       DataChannelClose 1, PeerConnectionClose 0, OnDisconnect,
       OnError ''Cannot read properties of null (reading createOffer)''])"
  by (simp add: connect_disconnected_at_getUserMedia_def createRealtimeSession_def
      createWebRTCConnection_suspends_def createWebRTCConnection_resumes_def disconnect_def
      rejecting_platform_def constructor_def truthy_def or_default_def Let_def)

lemma no_teardown_negotiate:
  "negotiate pf url sdp = (r, l) \<Longrightarrow>
     \<not> list_ex is_TrackStop l \<and> \<not> list_ex is_DataChannelClose l \<and>
     \<not> list_ex is_PeerConnectionClose l"
  by (auto simp: negotiate_def postSdp_def split: settled.splits if_splits prod.splits)

lemma no_teardown_AddTrack:
  "\<not> list_ex is_TrackStop (map AddTrack ts)"
  "\<not> list_ex is_DataChannelClose (map AddTrack ts)"
  "\<not> list_ex is_PeerConnectionClose (map AddTrack ts)"
  by (induction ts) auto

lemma no_teardown_createWebRTCConnection:
  "\<not> list_ex is_TrackStop (snd (snd (createWebRTCConnection pf this))) \<and>
   \<not> list_ex is_DataChannelClose (snd (snd (createWebRTCConnection pf this))) \<and>
   \<not> list_ex is_PeerConnectionClose (snd (snd (createWebRTCConnection pf this)))"
  using no_teardown_AddTrack
  by (auto simp: createWebRTCConnection_def Let_def split: settled.splits prod.splits
      dest: no_teardown_negotiate)

lemma no_teardown_createWebRTCConnection_dest:
  "createWebRTCConnection pf this = (out, this1, l) \<Longrightarrow>
     \<not> list_ex is_TrackStop l \<and> \<not> list_ex is_DataChannelClose l \<and>
     \<not> list_ex is_PeerConnectionClose l"
  using no_teardown_createWebRTCConnection [of pf this] by simp

lemma createRealtimeSession_log:
  "snd (snd (createRealtimeSession pf this)) = [FetchRealtimeSession]"
  by (simp add: createRealtimeSession_def Let_def split: settled.splits)

lemma createRealtimeSession_log_dest:
  "createRealtimeSession pf this = (out, this1, l) \<Longrightarrow> l = [FetchRealtimeSession]"
  using createRealtimeSession_log [of pf this] by simp

text \<open>\<open>connect\<close> never runs a teardown action, whatever the platform answers.\<close>

lemma no_teardown_connect:
  "\<not> list_ex is_TrackStop (snd (snd (connect pf this))) \<and>
   \<not> list_ex is_DataChannelClose (snd (snd (connect pf this))) \<and>
   \<not> list_ex is_PeerConnectionClose (snd (snd (connect pf this)))"
proof (cases "createRealtimeSession pf this")
  case (fields out1 this1 log1)
  note l1 = createRealtimeSession_log_dest [OF fields]
  show ?thesis
  proof (cases out1)
    case (Threw e)
    then show ?thesis using fields l1 by (simp add: connect_def)
  next
    case Resolved
    obtain out2 this2 log2 where c: "createWebRTCConnection pf this1 = (out2, this2, log2)"
      by (cases "createWebRTCConnection pf this1")
    note l2 = no_teardown_createWebRTCConnection_dest [OF c]
    show ?thesis using fields Resolved c l1 l2
      by (cases out2) (simp_all add: connect_def)
  qed
qed

text \<open>
  Claim C6, as stated: every failure during open, after resources have been allocated,
  and every call to close, also before open completes, runs the teardown so that no
  microphone track, event channel or transport remains allocated. Two runs with the
  platform whose negotiation is rejected show otherwise. In the first, \<open>connect\<close> throws
  while the service still holds the transport, the channel and the microphone stream,
  and no track has been stopped: the \<open>catch\<close> of \<open>connect\<close> only reports the error. In
  the second, \<open>disconnect\<close> is called while \<open>connect\<close> waits for the microphone; the
  suspended \<open>connect\<close> then stores the stream it is given, throws on the missing
  transport, and the service is left holding a microphone track that nothing stops.
\<close>

theorem failed_connect_keeps_resources_counterexample:
  "fst (connect rejecting_platform constructor) = Threw ''Failed to parse SessionDescription'' \<and>
   \<not> released (fst (snd (connect rejecting_platform constructor))) \<and>
   micStream (fst (snd (connect rejecting_platform constructor))) = Some [2] \<and>
   \<not> list_ex is_TrackStop (snd (snd (connect rejecting_platform constructor))) \<and>
   fst (connect_disconnected_at_getUserMedia rejecting_platform constructor) =
     Threw ''Cannot read properties of null (reading createOffer)'' \<and>
   \<not> released (fst (snd (connect_disconnected_at_getUserMedia rejecting_platform constructor))) \<and>
   micStream (fst (snd (connect_disconnected_at_getUserMedia rejecting_platform constructor))) =
     Some [2] \<and>
   \<not> list_ex is_TrackStop
       (snd (snd (connect_disconnected_at_getUserMedia rejecting_platform constructor)))"
  unfolding connect_rejecting_platform connect_disconnected_rejecting_platform
  by (simp add: released_def constructor_def)

text \<open>
  Claim C6, amended. For every call to \<open>disconnect\<close>, in every state of the service
  (before open, while an open is suspended, after a failed or a successful open):
  \<open>disconnect\<close> returns without throwing, and at the moment it returns the service holds
  no transport, channel or microphone stream, and every channel, transport and track
  it held at the call has been closed or stopped. This is a statement about the moment
  \<open>disconnect\<close> returns: \<open>disconnect\<close> does not cancel an open in progress, and
  \<open>connect\<close> itself, failing or not, never closes a channel or a transport and never
  stops a track, so what an open holds when it fails, or acquires after \<open>disconnect\<close>
  has returned, stays allocated until \<open>disconnect\<close> is called again.
\<close>

theorem disconnect_releases_everything:
  "fst (disconnect this) = Resolved \<and>
   released (fst (snd (disconnect this))) \<and>
   (\<forall>dc. dataChannel this = Some dc \<longrightarrow> DataChannelClose dc \<in> set (snd (snd (disconnect this)))) \<and>
   (\<forall>pc. peerConnection this = Some pc \<longrightarrow>
      PeerConnectionClose pc \<in> set (snd (snd (disconnect this)))) \<and>
   (\<forall>tracks. micStream this = Some tracks \<longrightarrow>
      (\<forall>t \<in> set tracks. TrackStop t \<in> set (snd (snd (disconnect this))))) \<and>
   \<not> list_ex is_TrackStop (snd (snd (connect pf this))) \<and>
   \<not> list_ex is_DataChannelClose (snd (snd (connect pf this))) \<and>
   \<not> list_ex is_PeerConnectionClose (snd (snd (connect pf this))) \<and>
   released (fst (snd (disconnect (fst (snd (connect pf this))))))"
  using no_teardown_connect [of pf this]
  unfolding disconnect_log
  by (auto simp: disconnect_def released_def Let_def)

text \<open>After the failed open above, \<open>disconnect\<close> releases what the open had acquired; so
  does a second \<open>disconnect\<close> after the open that was disconnected while it waited for
  the microphone.\<close>

theorem disconnect_releases_everything_witness:
  "fst (disconnect (fst (snd (connect rejecting_platform constructor)))) = Resolved \<and>
   released (fst (snd (disconnect (fst (snd (connect rejecting_platform constructor)))))) \<and>
   DataChannelClose 1 \<in> set (snd (snd (disconnect (fst (snd (connect rejecting_platform constructor)))))) \<and>
   PeerConnectionClose 0 \<in> set (snd (snd (disconnect (fst (snd (connect rejecting_platform constructor)))))) \<and>
   TrackStop 2 \<in> set (snd (snd (disconnect (fst (snd (connect rejecting_platform constructor)))))) \<and>
   TrackStop 2 \<in> set (snd (snd (disconnect
     (fst (snd (connect_disconnected_at_getUserMedia rejecting_platform constructor))))))"
proof -
  have a: "fst (disconnect (fst (snd (connect rejecting_platform constructor)))) = Resolved \<and>
   released (fst (snd (disconnect (fst (snd (connect rejecting_platform constructor)))))) \<and>
   DataChannelClose 1 \<in> set (snd (snd (disconnect (fst (snd (connect rejecting_platform constructor)))))) \<and>
   PeerConnectionClose 0 \<in> set (snd (snd (disconnect (fst (snd (connect rejecting_platform constructor)))))) \<and>
   TrackStop 2 \<in> set (snd (snd (disconnect (fst (snd (connect rejecting_platform constructor))))))"
    using disconnect_releases_everything [of "fst (snd (connect rejecting_platform constructor))"]
    by (simp add: connect_rejecting_platform)
  have b: "TrackStop 2 \<in> set (snd (snd (disconnect
     (fst (snd (connect_disconnected_at_getUserMedia rejecting_platform constructor))))))"
    using disconnect_releases_everything
      [of "fst (snd (connect_disconnected_at_getUserMedia rejecting_platform constructor))"]
    by (simp add: connect_disconnected_rejecting_platform)
  show ?thesis using a b by simp
qed

section \<open>Properties of the workflow\<close>

lemma trim_empty_iff: "(trim s = []) = (\<forall>c\<in>set s. isWhiteSpace c)"
proof
  assume "trim s = []"
  then have all: "\<forall>c\<in>set (dropWhile isWhiteSpace s). isWhiteSpace c"
    by (simp add: trim_def dropWhile_eq_Nil_conv)
  have "dropWhile isWhiteSpace s = []"
  proof (rule ccontr)
    assume ne: "dropWhile isWhiteSpace s \<noteq> []"
    then have "\<not> isWhiteSpace (hd (dropWhile isWhiteSpace s))" by (rule hd_dropWhile)
    moreover have "hd (dropWhile isWhiteSpace s) \<in> set (dropWhile isWhiteSpace s)"
      using ne by simp
    ultimately show False using all by blast
  qed
  then show "\<forall>c\<in>set s. isWhiteSpace c" by (simp only: dropWhile_eq_Nil_conv)
next
  assume "\<forall>c\<in>set s. isWhiteSpace c"
  then show "trim s = []" by (auto simp: trim_def dest: set_dropWhileD)
qed

lemma list_ex_doc: "list_ex P xs = (\<exists>d\<in>set xs. P d)"
  by (simp add: list_ex_iff)

text \<open>
  Claim C9, as stated: the stage is Finalize if the diarized transcript is non-empty.
  A diarized transcript that consists of one space is non-empty, yet the derived stage
  is Setup: the effect tests the trimmed text.
\<close>

theorem autoAdvance_nonempty_counterexample:
  "diarizedTranscript (initial_app\<lparr>diarizedTranscript := '' ''\<rparr>) \<noteq> [] \<and>
   activeStep (autoAdvance (initial_app\<lparr>diarizedTranscript := '' ''\<rparr>)) = Setup"
  by (simp add: autoAdvance_def hasFinalized_def hasRecordingData_def hasDocsReady_def
      hasSetup_def initial_app_def trim_def isWhiteSpace_def)

text \<open>
  Claim C9, amended. For every state, the derived stage is Finalize if the diarized
  transcript has a character that is not white space; else Record if the live
  transcript has a character that is not white space, or the documents are ready (a
  user is signed in, a session is open, and its documents include at least one JD and
  at least one CV); else Setup.
\<close>

theorem autoAdvance_stage:
  "activeStep (autoAdvance a) =
     (if hasFinalized a then Finalize
      else if hasRecordingData a \<or> hasDocsReady a then Record
      else Setup) \<and>
   hasFinalized a = (\<exists>c\<in>set (diarizedTranscript a). \<not> isWhiteSpace c) \<and>
   hasRecordingData a = (\<exists>c\<in>set (realtimeTranscript a). \<not> isWhiteSpace c) \<and>
   hasDocsReady a =
     (currentUser a \<noteq> None \<and> session a \<noteq> None \<and>
      (\<exists>d\<in>set (sessionDocs a). doc_type d = ''JD'') \<and>
      (\<exists>d\<in>set (sessionDocs a). doc_type d = ''CV''))"
  by (auto simp: autoAdvance_def hasFinalized_def hasRecordingData_def hasDocsReady_def
      hasSetup_def hasJD_def hasCV_def trim_empty_iff list_ex_iff)

text \<open>Both documents uploaded, nothing recorded, nothing finalized: Record. With a
  diarized transcript in addition: Finalize.\<close>

theorem autoAdvance_stage_witness:
  "activeStep (autoAdvance (example_app\<lparr>realtimeTranscript := [],
       session := Some \<lparr>session_id = 7, documents =
         Some [\<lparr>doc_type = ''JD'', file_name = ''jd.pdf''\<rparr>,
               \<lparr>doc_type = ''CV'', file_name = ''cv.pdf''\<rparr>]\<rparr>\<rparr>)) = Record \<and>
   activeStep (autoAdvance (example_app\<lparr>diarizedTranscript := ''Recruiter: Hi''\<rparr>)) = Finalize"
proof -
  have "activeStep (autoAdvance (example_app\<lparr>realtimeTranscript := [],
       session := Some \<lparr>session_id = 7, documents =
         Some [\<lparr>doc_type = ''JD'', file_name = ''jd.pdf''\<rparr>,
               \<lparr>doc_type = ''CV'', file_name = ''cv.pdf''\<rparr>]\<rparr>\<rparr>)) = Record"
    using autoAdvance_stage [of "example_app\<lparr>realtimeTranscript := [],
       session := Some \<lparr>session_id = 7, documents =
         Some [\<lparr>doc_type = ''JD'', file_name = ''jd.pdf''\<rparr>,
               \<lparr>doc_type = ''CV'', file_name = ''cv.pdf''\<rparr>]\<rparr>\<rparr>"]
    by (simp add: example_app_def initial_app_def sessionDocs_def)
  moreover have "activeStep (autoAdvance (example_app\<lparr>diarizedTranscript := ''Recruiter: Hi''\<rparr>)) = Finalize"
    using autoAdvance_stage [of "example_app\<lparr>diarizedTranscript := ''Recruiter: Hi''\<rparr>"]
    by (simp add: example_app_def initial_app_def isWhiteSpace_def)
  ultimately show ?thesis by simp
qed

lemma executeAction_unaccepted:
  assumes "trim (realtimeTranscript r) = [] \<or> now < actionCooldownUntil r \<or> session r = None"
  shows "snd (executeAction now now2 b r a) = None \<and>
         actionCooldownUntil (fst (executeAction now now2 b r a)) = actionCooldownUntil a \<and>
         timers (fst (executeAction now now2 b r a)) = timers a \<and>
         session (fst (executeAction now now2 b r a)) = session a"
  using assms by (auto simp: executeAction_def split: option.splits)

lemma executeAction_settles_frame:
  "actionCooldownUntil (executeAction_settles r a) = actionCooldownUntil a \<and>
   timers (executeAction_settles r a) = timers a \<and>
   session (executeAction_settles r a) = session a \<and>
   realtimeTranscript (executeAction_settles r a) = realtimeTranscript a"
  by (simp add: executeAction_settles_def Let_def split: action_reply.splits)

text \<open>
  While every click and every reset callback comes before the current expiry, and either
  no pending reset callback is due before the expiry or none runs at all, no request is
  issued and the expiry, the pending callbacks and the session stay as they are.
\<close>

lemma run_in_window:
  assumes "run es a = Some (a', reqs)"
    and "\<forall>t\<in>set (event_times es). t < actionCooldownUntil a"
    and "(\<forall>d\<in>set (timers a). actionCooldownUntil a \<le> d) \<or> \<not> list_ex is_TimerFires es"
  shows "reqs = [] \<and> actionCooldownUntil a' = actionCooldownUntil a \<and>
         timers a' = timers a \<and> session a' = session a"
  using assms
proof (induction es arbitrary: a a' reqs)
  case Nil
  then show ?case by simp
next
  case (Cons e es)
  show ?case
  proof (cases e)
    case (Invokes t t2 b)
    have tlt: "t < actionCooldownUntil a" using Cons.prems(2) Invokes by simp
    note un = executeAction_unaccepted [where r = a and a = a and now = t and ?now2.0 = t2 and b = b,
        OF disjI2, OF disjI1, OF tlt]
    obtain a1 where a1: "executeAction t t2 b a a = (a1, None)"
      using un by (cases "executeAction t t2 b a a") auto
    from Cons.prems(1) Invokes a1 obtain rs where r: "run es a1 = Some (a', rs)" "reqs = rs"
      by (auto split: option.splits)
    have f: "actionCooldownUntil a1 = actionCooldownUntil a" "timers a1 = timers a"
        "session a1 = session a"
      using un a1 by simp_all
    have d: "(\<forall>d\<in>set (timers a1). actionCooldownUntil a1 \<le> d) \<or> \<not> list_ex is_TimerFires es"
      using Cons.prems(3) Invokes f by auto
    have "rs = [] \<and> actionCooldownUntil a' = actionCooldownUntil a1 \<and>
         timers a' = timers a1 \<and> session a' = session a1"
      using Cons.IH [OF r(1) _ d] Cons.prems(2) Invokes f by simp
    then show ?thesis using f r by simp
  next
    case (Settles reply)
    from Cons.prems(1) Settles obtain rs where
      r: "run es (executeAction_settles reply a) = Some (a', rs)" "reqs = rs"
      by (auto split: option.splits)
    note f = executeAction_settles_frame [of reply a]
    have d: "(\<forall>d\<in>set (timers (executeAction_settles reply a)).
                actionCooldownUntil (executeAction_settles reply a) \<le> d) \<or>
             \<not> list_ex is_TimerFires es"
      using Cons.prems(3) Settles f by auto
    have "rs = [] \<and> actionCooldownUntil a' = actionCooldownUntil (executeAction_settles reply a) \<and>
         timers a' = timers (executeAction_settles reply a) \<and>
         session a' = session (executeAction_settles reply a)"
      using Cons.IH [OF r(1) _ d] Cons.prems(2) Settles f by simp
    then show ?thesis using f r by simp
  next
    case (TimerFires t)
    have tlt: "t < actionCooldownUntil a" using Cons.prems(2) TimerFires by simp
    have "\<forall>d\<in>set (timers a). actionCooldownUntil a \<le> d"
      using Cons.prems(3) TimerFires by simp
    then have "timerFires t a = None"
      using tlt by (auto simp: timerFires_def split: list.splits)
    then have "run (e # es) a = None" using TimerFires by simp
    then show ?thesis using Cons.prems(1) by simp
  next
    case (TranscriptUpdate newText)
    from Cons.prems(1) TranscriptUpdate obtain rs where
      r: "run es (a\<lparr>realtimeTranscript := newText\<rparr>) = Some (a', rs)" "reqs = rs"
      by (auto split: option.splits)
    have d: "(\<forall>d\<in>set (timers (a\<lparr>realtimeTranscript := newText\<rparr>)).
                actionCooldownUntil (a\<lparr>realtimeTranscript := newText\<rparr>) \<le> d) \<or>
             \<not> list_ex is_TimerFires es"
      using Cons.prems(3) TranscriptUpdate by auto
    have "rs = [] \<and> actionCooldownUntil a' = actionCooldownUntil (a\<lparr>realtimeTranscript := newText\<rparr>) \<and>
         timers a' = timers (a\<lparr>realtimeTranscript := newText\<rparr>) \<and>
         session a' = session (a\<lparr>realtimeTranscript := newText\<rparr>)"
      using Cons.IH [OF r(1) _ d] Cons.prems(2) TranscriptUpdate by simp
    then show ?thesis using r by simp
  qed
qed

lemma event_times_quiet:
  "\<not> list_ex is_Invokes es \<Longrightarrow> \<not> list_ex is_TimerFires es \<Longrightarrow> event_times es = []"
  by (induction es rule: event_times.induct) simp_all

text \<open>Without a click in between, the expiry can only stay or be reset to 0.\<close>

lemma run_without_clicks:
  assumes "run es a = Some (a', reqs)" and "\<not> list_ex is_Invokes es"
    and "actionCooldownUntil a \<le> X"
  shows "reqs = [] \<and> actionCooldownUntil a' \<le> X \<and> session a' = session a"
  using assms
proof (induction es arbitrary: a a' reqs)
  case Nil
  then show ?case by simp
next
  case (Cons e es)
  show ?case
  proof (cases e)
    case (Invokes t t2 b)
    then show ?thesis using Cons.prems(2) by simp
  next
    case (Settles reply)
    from Cons.prems(1) Settles obtain rs where
      r: "run es (executeAction_settles reply a) = Some (a', rs)" "reqs = rs"
      by (auto split: option.splits)
    note f = executeAction_settles_frame [of reply a]
    have "rs = [] \<and> actionCooldownUntil a' \<le> X \<and>
         session a' = session (executeAction_settles reply a)"
      using Cons.IH [OF r(1)] Cons.prems(2,3) f by simp
    then show ?thesis using f r by simp
  next
    case (TimerFires t)
    from Cons.prems(1) TimerFires obtain a1 rs where
      r: "timerFires t a = Some a1" "run es a1 = Some (a', rs)" "reqs = rs"
      by (auto split: option.splits)
    have f: "actionCooldownUntil a1 = 0" "session a1 = session a"
      using r(1) by (auto simp: timerFires_def split: list.splits if_splits)
    have "rs = [] \<and> actionCooldownUntil a' \<le> X \<and> session a' = session a1"
      using Cons.IH [OF r(2)] Cons.prems(2) f by simp
    then show ?thesis using f r by simp
  next
    case (TranscriptUpdate newText)
    from Cons.prems(1) TranscriptUpdate obtain rs where
      r: "run es (a\<lparr>realtimeTranscript := newText\<rparr>) = Some (a', rs)" "reqs = rs"
      by (auto split: option.splits)
    have "rs = [] \<and> actionCooldownUntil a' \<le> X \<and>
         session a' = session (a\<lparr>realtimeTranscript := newText\<rparr>)"
      using Cons.IH [OF r(1)] Cons.prems(2,3) by simp
    then show ?thesis using r by simp
  qed
qed

lemma executeAction_accepts:
  assumes "session r = Some s" "trim (realtimeTranscript r) \<noteq> []" "actionCooldownUntil r \<le> now"
  shows "executeAction now now2 b r a =
           (a\<lparr>actionLoading := True, actionError := None,
              actionCooldownUntil := now2 + 2000, timers := timers a @ [now2 + 2000]\<rparr>,
            Some \<lparr>req_session = session_id s, action_button = b,
                  client_transcript = realtimeTranscript r\<rparr>)"
  using assms by (simp add: executeAction_def ACTION_COOLDOWN_MS_def Let_def)

lemma executeAction_cooling:
  assumes "session r = Some s" "trim (realtimeTranscript r) \<noteq> []" "now < actionCooldownUntil r"
  shows "executeAction now now2 b r a = (a\<lparr>actionError := Some ''Cooling down.''\<rparr>, None)"
  using assms by (simp add: executeAction_def)

lemma executeAction_empty:
  assumes "session r = Some s" "trim (realtimeTranscript r) = []"
  shows "executeAction now now2 b r a = (a\<lparr>actionError := Some ''Transcript is empty.''\<rparr>, None)"
  using assms by (simp add: executeAction_def)

text \<open>The handler of one render, called again before the component has rendered with
  the new expiry, is accepted again: it still sees the expiry of its own render.\<close>

lemma executeAction_same_render:
  assumes "session a = Some s" "trim (realtimeTranscript a) \<noteq> []" "actionCooldownUntil a \<le> now"
    and "now \<le> t"
  shows "snd (executeAction t t2 b2 a (fst (executeAction now now2 b a a))) =
           Some \<lparr>req_session = session_id s, action_button = b2,
                 client_transcript = realtimeTranscript a\<rparr>"
  using assms by (simp add: executeAction_accepts)

lemma example_app_ready:
  "session example_app = Some \<lparr>session_id = 7, documents = None\<rparr>"
  "trim (realtimeTranscript example_app) \<noteq> []"
  "actionCooldownUntil example_app = 0"
  "timers example_app = []"
  by (simp_all add: example_app_def initial_app_def trim_def isWhiteSpace_def)

text \<open>
  Claim C3, as stated: after an acceptance, a second invocation within the 2000 ms window
  is rejected with the cooldown reason. From the example state a click at 1000 is
  accepted (expiry 3000) and its call succeeds. A click at 3000 is accepted and sets
  the expiry to 5000 while the reset callback of the first acceptance is still pending.
  That callback then runs and sets the expiry to 0, and a click at 3500, inside the
  window of the second acceptance, is accepted: a third request is issued.
\<close>

theorem second_click_in_window_accepted_counterexample:
  "run [Invokes 1000 1000 example_button, Settles (Succeeded (Some ''Ask about testing.'')),
        Invokes 3000 3000 example_button] example_app =
     Some (example_app\<lparr>actionOutput := ''Ask about testing.'', actionLoading := True,
                        actionCooldownUntil := 5000, timers := [3000, 5000]\<rparr>,
           [\<lparr>req_session = 7, action_button = example_button, client_transcript = ''Hello''\<rparr>,
            \<lparr>req_session = 7, action_button = example_button, client_transcript = ''Hello''\<rparr>]) \<and>
   run [Invokes 1000 1000 example_button, Settles (Succeeded (Some ''Ask about testing.'')),
        Invokes 3000 3000 example_button, TimerFires 3000,
        Invokes 3500 3500 example_button] example_app =
     Some (example_app\<lparr>actionOutput := ''Ask about testing.'', actionLoading := True,
                        actionCooldownUntil := 5500, timers := [5000, 5500]\<rparr>,
           [\<lparr>req_session = 7, action_button = example_button, client_transcript = ''Hello''\<rparr>,
            \<lparr>req_session = 7, action_button = example_button, client_transcript = ''Hello''\<rparr>,
            \<lparr>req_session = 7, action_button = example_button, client_transcript = ''Hello''\<rparr>])"
  by (simp add: executeAction_def executeAction_settles_def timerFires_def or_default_def
      ACTION_COOLDOWN_MS_def example_app_def initial_app_def trim_def isWhiteSpace_def Let_def)

text \<open>
  Claim C3, amended. With a session open, \<open>executeAction\<close> checks its preconditions in
  order and signals each rejection with its own message, issuing no request: a
  transcript that is empty or all white space is rejected with \<open>Transcript is empty.\<close>
  whatever the cooldown; otherwise a clock reading before the cooldown expiry is
  rejected with \<open>Cooling down.\<close>; otherwise the invocation is accepted, and before the
  backend call settles the expiry is already the clock reading plus 2000 ms. Whatever
  happens before the next click (the call settling, transcript updates, reset callbacks
  running when due), the next click, made from a render that saw the resulting state
  with a transcript, is accepted when its clock reading is at or after the expiry. It
  is rejected with \<open>Cooling down.\<close> when its clock reading is before the expiry,
  provided that no reset callback has run since the acceptance; this is so in
  particular when no reset callback of an earlier acceptance was pending at the
  acceptance.
\<close>

theorem executeAction_preconditions:
  assumes "session a = Some s"
  shows
   "(trim (realtimeTranscript a) = [] \<longrightarrow>
       executeAction now now2 b a a = (a\<lparr>actionError := Some ''Transcript is empty.''\<rparr>, None)) \<and>
    (trim (realtimeTranscript a) \<noteq> [] \<and> now < actionCooldownUntil a \<longrightarrow>
       executeAction now now2 b a a = (a\<lparr>actionError := Some ''Cooling down.''\<rparr>, None)) \<and>
    (trim (realtimeTranscript a) \<noteq> [] \<and> actionCooldownUntil a \<le> now \<longrightarrow>
       executeAction now now2 b a a =
         (a\<lparr>actionLoading := True, actionError := None,
            actionCooldownUntil := now2 + 2000, timers := timers a @ [now2 + 2000]\<rparr>,
          Some \<lparr>req_session = session_id s, action_button = b,
                client_transcript = realtimeTranscript a\<rparr>) \<and>
       (\<forall>es a2 reqs t t2 b2.
          run es (fst (executeAction now now2 b a a)) = Some (a2, reqs) \<and>
          \<not> list_ex is_Invokes es \<and> trim (realtimeTranscript a2) \<noteq> [] \<longrightarrow>
            (t < now2 + 2000 \<and>
             (\<not> list_ex is_TimerFires es \<or>
              timers a = [] \<and> (\<forall>u\<in>set (event_times es). u \<le> t)) \<longrightarrow>
               executeAction t t2 b2 a2 a2 = (a2\<lparr>actionError := Some ''Cooling down.''\<rparr>, None)) \<and>
            (now2 + 2000 \<le> t \<longrightarrow>
               executeAction t t2 b2 a2 a2 =
                 (a2\<lparr>actionLoading := True, actionError := None,
                     actionCooldownUntil := t2 + 2000, timers := timers a2 @ [t2 + 2000]\<rparr>,
                  Some \<lparr>req_session = session_id s, action_button = b2,
                        client_transcript = realtimeTranscript a2\<rparr>))))"
proof (intro conjI impI allI)
  assume "trim (realtimeTranscript a) = []"
  then show "executeAction now now2 b a a = (a\<lparr>actionError := Some ''Transcript is empty.''\<rparr>, None)"
    using assms by (rule executeAction_empty [rotated])
next
  assume "trim (realtimeTranscript a) \<noteq> [] \<and> now < actionCooldownUntil a"
  then show "executeAction now now2 b a a = (a\<lparr>actionError := Some ''Cooling down.''\<rparr>, None)"
    using assms executeAction_cooling by blast
next
  assume "trim (realtimeTranscript a) \<noteq> [] \<and> actionCooldownUntil a \<le> now"
  then show "executeAction now now2 b a a =
         (a\<lparr>actionLoading := True, actionError := None,
            actionCooldownUntil := now2 + 2000, timers := timers a @ [now2 + 2000]\<rparr>,
          Some \<lparr>req_session = session_id s, action_button = b,
                client_transcript = realtimeTranscript a\<rparr>)"
    using assms executeAction_accepts by blast
next
  fix es a2 reqs t t2 b2
  assume acc: "trim (realtimeTranscript a) \<noteq> [] \<and> actionCooldownUntil a \<le> now"
  assume h: "run es (fst (executeAction now now2 b a a)) = Some (a2, reqs) \<and>
          \<not> list_ex is_Invokes es \<and> trim (realtimeTranscript a2) \<noteq> []"
  assume w: "t < now2 + 2000 \<and>
             (\<not> list_ex is_TimerFires es \<or>
              timers a = [] \<and> (\<forall>u\<in>set (event_times es). u \<le> t))"
  let ?a1 = "fst (executeAction now now2 b a a)"
  have a1: "actionCooldownUntil ?a1 = now2 + 2000" "timers ?a1 = timers a @ [now2 + 2000]"
      "session ?a1 = Some s"
    using executeAction_accepts [OF assms, where now = now and a = a and ?now2.0 = now2 and b = b] acc assms by simp_all
  have times: "\<forall>u\<in>set (event_times es). u < actionCooldownUntil ?a1"
  proof (cases "list_ex is_TimerFires es")
    case False
    then have "event_times es = []" using h event_times_quiet by blast
    then show ?thesis by simp
  next
    case True
    then have "\<forall>u\<in>set (event_times es). u \<le> t" using w by blast
    then show ?thesis using w a1 by auto
  qed
  have due: "(\<forall>d\<in>set (timers ?a1). actionCooldownUntil ?a1 \<le> d) \<or> \<not> list_ex is_TimerFires es"
    using w a1 by auto
  have "reqs = [] \<and> actionCooldownUntil a2 = actionCooldownUntil ?a1 \<and>
         timers a2 = timers ?a1 \<and> session a2 = session ?a1"
    using h by (intro run_in_window [OF _ times due]) simp
  then have "session a2 = Some s" "t < actionCooldownUntil a2"
    using a1 w by simp_all
  then show "executeAction t t2 b2 a2 a2 = (a2\<lparr>actionError := Some ''Cooling down.''\<rparr>, None)"
    using h executeAction_cooling by blast
next
  fix es a2 reqs t t2 b2
  assume acc: "trim (realtimeTranscript a) \<noteq> [] \<and> actionCooldownUntil a \<le> now"
  assume h: "run es (fst (executeAction now now2 b a a)) = Some (a2, reqs) \<and>
          \<not> list_ex is_Invokes es \<and> trim (realtimeTranscript a2) \<noteq> []"
  assume w: "now2 + 2000 \<le> t"
  let ?a1 = "fst (executeAction now now2 b a a)"
  have a1: "actionCooldownUntil ?a1 = now2 + 2000" "session ?a1 = Some s"
    using executeAction_accepts [OF assms, where now = now and a = a and ?now2.0 = now2 and b = b] acc assms by simp_all
  have "reqs = [] \<and> actionCooldownUntil a2 \<le> now2 + 2000 \<and> session a2 = session ?a1"
    using h a1 by (intro run_without_clicks [of es ?a1 a2 reqs]) auto
  then have "session a2 = Some s" "actionCooldownUntil a2 \<le> t"
    using a1 w by simp_all
  then show "executeAction t t2 b2 a2 a2 =
                 (a2\<lparr>actionLoading := True, actionError := None,
                     actionCooldownUntil := t2 + 2000, timers := timers a2 @ [t2 + 2000]\<rparr>,
                  Some \<lparr>req_session = session_id s, action_button = b2,
                        client_transcript = realtimeTranscript a2\<rparr>)"
    using h executeAction_accepts by blast
qed

text \<open>
  A blank transcript is rejected as empty even while a cooldown runs. From the example
  state a click at 1000 is accepted with expiry 3000; after the call has succeeded, a
  click at 2999 is rejected as cooling down, and, once the reset callback has run at
  3000, a click at 3000 is accepted.
\<close>

theorem executeAction_preconditions_witness:
  "executeAction 500 500 example_button
      (example_app\<lparr>realtimeTranscript := '' '', actionCooldownUntil := 9000\<rparr>)
      (example_app\<lparr>realtimeTranscript := '' '', actionCooldownUntil := 9000\<rparr>) =
     (example_app\<lparr>realtimeTranscript := '' '', actionCooldownUntil := 9000,
                   actionError := Some ''Transcript is empty.''\<rparr>, None) \<and>
   executeAction 1000 1000 example_button example_app example_app =
     (example_app\<lparr>actionLoading := True, actionCooldownUntil := 3000, timers := [3000]\<rparr>,
      Some \<lparr>req_session = 7, action_button = example_button, client_transcript = ''Hello''\<rparr>) \<and>
   executeAction 2999 2999 example_button
      (example_app\<lparr>actionOutput := ''Ask about testing.'', actionCooldownUntil := 3000,
                    timers := [3000]\<rparr>)
      (example_app\<lparr>actionOutput := ''Ask about testing.'', actionCooldownUntil := 3000,
                    timers := [3000]\<rparr>) =
     (example_app\<lparr>actionOutput := ''Ask about testing.'', actionCooldownUntil := 3000,
                   timers := [3000], actionError := Some ''Cooling down.''\<rparr>, None) \<and>
   executeAction 3000 3001 example_button
      (example_app\<lparr>actionOutput := ''Ask about testing.''\<rparr>)
      (example_app\<lparr>actionOutput := ''Ask about testing.''\<rparr>) =
     (example_app\<lparr>actionOutput := ''Ask about testing.'', actionLoading := True,
                   actionCooldownUntil := 5001, timers := [5001]\<rparr>,
      Some \<lparr>req_session = 7, action_button = example_button, client_transcript = ''Hello''\<rparr>)"
proof -
  have blank: "session (example_app\<lparr>realtimeTranscript := '' '', actionCooldownUntil := 9000\<rparr>) =
      Some \<lparr>session_id = 7, documents = None\<rparr>"
    by (simp add: example_app_ready)
  have w1: "executeAction 500 500 example_button
      (example_app\<lparr>realtimeTranscript := '' '', actionCooldownUntil := 9000\<rparr>)
      (example_app\<lparr>realtimeTranscript := '' '', actionCooldownUntil := 9000\<rparr>) =
     (example_app\<lparr>realtimeTranscript := '' '', actionCooldownUntil := 9000,
                   actionError := Some ''Transcript is empty.''\<rparr>, None)"
    using executeAction_preconditions [OF blank, of 500 500 example_button]
    by (simp add: trim_def isWhiteSpace_def)
  note T = executeAction_preconditions [OF example_app_ready(1), of 1000 1000 example_button]
  have acc: "executeAction 1000 1000 example_button example_app example_app =
     (example_app\<lparr>actionLoading := True, actionCooldownUntil := 3000, timers := [3000]\<rparr>,
      Some \<lparr>req_session = 7, action_button = example_button, client_transcript = ''Hello''\<rparr>)"
    using T example_app_ready by (simp add: example_app_def initial_app_def)
  have c3: "trim (realtimeTranscript example_app) \<noteq> [] \<and> actionCooldownUntil example_app \<le> 1000"
    by (simp add: example_app_ready)
  note later = T [THEN conjunct2, THEN conjunct2, THEN mp, OF c3, THEN conjunct2, rule_format]
  have run1: "run [Settles (Succeeded (Some ''Ask about testing.''))]
                (fst (executeAction 1000 1000 example_button example_app example_app)) =
              Some (example_app\<lparr>actionOutput := ''Ask about testing.'', actionCooldownUntil := 3000,
                    timers := [3000]\<rparr>, [])"
    unfolding acc
    by (simp add: executeAction_settles_def or_default_def example_app_def initial_app_def)
  have run2: "run [Settles (Succeeded (Some ''Ask about testing.'')), TimerFires 3000]
                (fst (executeAction 1000 1000 example_button example_app example_app)) =
              Some (example_app\<lparr>actionOutput := ''Ask about testing.''\<rparr>, [])"
    unfolding acc
    by (simp add: executeAction_settles_def timerFires_def or_default_def example_app_def
        initial_app_def)
  have w3: "executeAction 2999 2999 example_button
      (example_app\<lparr>actionOutput := ''Ask about testing.'', actionCooldownUntil := 3000,
                    timers := [3000]\<rparr>)
      (example_app\<lparr>actionOutput := ''Ask about testing.'', actionCooldownUntil := 3000,
                    timers := [3000]\<rparr>) =
     (example_app\<lparr>actionOutput := ''Ask about testing.'', actionCooldownUntil := 3000,
                   timers := [3000], actionError := Some ''Cooling down.''\<rparr>, None)"
    using later [of "[Settles (Succeeded (Some ''Ask about testing.''))]"
        "example_app\<lparr>actionOutput := ''Ask about testing.'', actionCooldownUntil := 3000,
                    timers := [3000]\<rparr>" "[]" 2999 2999 example_button] run1 example_app_ready
    by simp
  have w4: "executeAction 3000 3001 example_button
      (example_app\<lparr>actionOutput := ''Ask about testing.''\<rparr>)
      (example_app\<lparr>actionOutput := ''Ask about testing.''\<rparr>) =
     (example_app\<lparr>actionOutput := ''Ask about testing.'', actionLoading := True,
                   actionCooldownUntil := 5001, timers := [5001]\<rparr>,
      Some \<lparr>req_session = 7, action_button = example_button, client_transcript = ''Hello''\<rparr>)"
    using later [of "[Settles (Succeeded (Some ''Ask about testing.'')), TimerFires 3000]"
        "example_app\<lparr>actionOutput := ''Ask about testing.''\<rparr>" "[]" 3000 3001 example_button]
      run2 example_app_ready
    by (simp add: example_app_def initial_app_def)
  show ?thesis using w1 acc w3 w4 by simp
qed

text \<open>
  Claim C10, as stated: after an accepted invocation whose backend call fails, every
  further invocation during the 2000 ms window is rejected with the cooldown reason.
  From the example state a click at 1000 is accepted and succeeds; a click at 3000 is
  accepted (expiry 5000) while the first reset callback is pending, and its call fails;
  the failure leaves the expiry at 5000. The first reset callback then runs, and a
  click at 3500 is accepted.
\<close>

theorem click_after_failure_accepted_counterexample:
  "run [Invokes 1000 1000 example_button, Settles (Succeeded (Some ''Ask about testing.'')),
        Invokes 3000 3000 example_button, Settles (Failed None)] example_app =
     Some (example_app\<lparr>actionOutput := ''Ask about testing.'',
                        actionError := Some ''Action failed'',
                        actionCooldownUntil := 5000, timers := [3000, 5000]\<rparr>,
           [\<lparr>req_session = 7, action_button = example_button, client_transcript = ''Hello''\<rparr>,
            \<lparr>req_session = 7, action_button = example_button, client_transcript = ''Hello''\<rparr>]) \<and>
   run [Invokes 1000 1000 example_button, Settles (Succeeded (Some ''Ask about testing.'')),
        Invokes 3000 3000 example_button, Settles (Failed None), TimerFires 3001,
        Invokes 3500 3500 example_button] example_app =
     Some (example_app\<lparr>actionOutput := ''Ask about testing.'', actionLoading := True,
                        actionCooldownUntil := 5500, timers := [5000, 5500]\<rparr>,
           [\<lparr>req_session = 7, action_button = example_button, client_transcript = ''Hello''\<rparr>,
            \<lparr>req_session = 7, action_button = example_button, client_transcript = ''Hello''\<rparr>,
            \<lparr>req_session = 7, action_button = example_button, client_transcript = ''Hello''\<rparr>])"
  by (simp add: executeAction_def executeAction_settles_def timerFires_def or_default_def
      ACTION_COOLDOWN_MS_def example_app_def initial_app_def trim_def isWhiteSpace_def Let_def)

text \<open>
  Claim C10, amended. Let an invocation be accepted (session open, transcript not blank,
  cooldown expired) and let the backend call then fail. The failure stores the error
  message and leaves the output and the cooldown expiry as they were: the expiry is
  still the clock reading of the acceptance plus 2000 ms. As long as no reset callback
  runs (which is certain before the expiry when no reset callback of an earlier
  acceptance was pending at the acceptance), whatever else happens while the clock is
  before that expiry (further clicks, calls settling, transcript updates) issues no
  request, and every further click in a state with a transcript is rejected with
  \<open>Cooling down.\<close>
\<close>

theorem failed_action_keeps_cooldown:
  assumes "session a = Some s" and "trim (realtimeTranscript a) \<noteq> []"
    and "actionCooldownUntil a \<le> now"
    and "a1 = fst (executeAction now now2 b a a)"
    and "a2 = executeAction_settles (Failed detail) a1"
  shows "actionCooldownUntil a2 = now2 + 2000 \<and>
         actionOutput a2 = actionOutput a \<and>
         actionError a2 = Some (or_default detail ''Action failed'') \<and>
         (\<forall>es a3 reqs t t2 b2.
            run es a2 = Some (a3, reqs) \<and> (timers a = [] \<or> \<not> list_ex is_TimerFires es) \<and>
            (\<forall>u\<in>set (event_times es). u < now2 + 2000) \<and>
            t < now2 + 2000 \<and> trim (realtimeTranscript a3) \<noteq> [] \<longrightarrow>
              reqs = [] \<and>
              executeAction t t2 b2 a3 a3 = (a3\<lparr>actionError := Some ''Cooling down.''\<rparr>, None))"
proof -
  have a1: "a1 = a\<lparr>actionLoading := True, actionError := None,
              actionCooldownUntil := now2 + 2000, timers := timers a @ [now2 + 2000]\<rparr>"
    using executeAction_accepts [OF assms(1,2,3), where a = a and ?now2.0 = now2 and b = b] assms(4) by simp
  have a2: "actionCooldownUntil a2 = now2 + 2000" "timers a2 = timers a @ [now2 + 2000]"
     "session a2 = Some s" "actionOutput a2 = actionOutput a"
     "actionError a2 = Some (or_default detail ''Action failed'')"
    using a1 assms(1,5) by (simp_all add: executeAction_settles_def Let_def)
  have "\<forall>es a3 reqs t t2 b2.
            run es a2 = Some (a3, reqs) \<and> (timers a = [] \<or> \<not> list_ex is_TimerFires es) \<and>
            (\<forall>u\<in>set (event_times es). u < now2 + 2000) \<and>
            t < now2 + 2000 \<and> trim (realtimeTranscript a3) \<noteq> [] \<longrightarrow>
              reqs = [] \<and>
              executeAction t t2 b2 a3 a3 = (a3\<lparr>actionError := Some ''Cooling down.''\<rparr>, None)"
  proof (intro allI impI)
    fix es a3 reqs t t2 b2
    assume h: "run es a2 = Some (a3, reqs) \<and> (timers a = [] \<or> \<not> list_ex is_TimerFires es) \<and>
            (\<forall>u\<in>set (event_times es). u < now2 + 2000) \<and>
            t < now2 + 2000 \<and> trim (realtimeTranscript a3) \<noteq> []"
    have times: "\<forall>u\<in>set (event_times es). u < actionCooldownUntil a2"
      using h a2 by simp
    have due: "(\<forall>d\<in>set (timers a2). actionCooldownUntil a2 \<le> d) \<or> \<not> list_ex is_TimerFires es"
      using h a2 by auto
    have inv: "reqs = [] \<and> actionCooldownUntil a3 = actionCooldownUntil a2 \<and>
         timers a3 = timers a2 \<and> session a3 = session a2"
      using h by (intro run_in_window [OF _ times due]) simp
    then have "session a3 = Some s" "t < actionCooldownUntil a3"
      using a2 h by simp_all
    then have "executeAction t t2 b2 a3 a3 = (a3\<lparr>actionError := Some ''Cooling down.''\<rparr>, None)"
      using h executeAction_cooling by blast
    with inv show "reqs = [] \<and>
              executeAction t t2 b2 a3 a3 = (a3\<lparr>actionError := Some ''Cooling down.''\<rparr>, None)"
      by simp
  qed
  then show ?thesis using a2(1,4,5) by (intro conjI) assumption+
qed

text \<open>
  From the example state a click at 1000 is accepted and its call fails without a
  detail. A click at 1500, a transcript update and a click at 2500 follow; none issues
  a request, and a click at 2999 is still rejected as cooling down.
\<close>

theorem failed_action_keeps_cooldown_witness:
  "actionCooldownUntil
     (executeAction_settles (Failed None)
        (fst (executeAction 1000 1000 example_button example_app example_app))) = 3000 \<and>
   actionOutput
     (executeAction_settles (Failed None)
        (fst (executeAction 1000 1000 example_button example_app example_app))) = [] \<and>
   actionError
     (executeAction_settles (Failed None)
        (fst (executeAction 1000 1000 example_button example_app example_app))) =
     Some ''Action failed'' \<and>
   run [Invokes 1500 1500 example_button, TranscriptUpdate ''Hello there'',
        Invokes 2500 2500 example_button]
     (executeAction_settles (Failed None)
        (fst (executeAction 1000 1000 example_button example_app example_app))) =
     Some (example_app\<lparr>realtimeTranscript := ''Hello there'', actionCooldownUntil := 3000,
              timers := [3000], actionError := Some ''Cooling down.''\<rparr>, []) \<and>
   executeAction 2999 2999 example_button
     (example_app\<lparr>realtimeTranscript := ''Hello there'', actionCooldownUntil := 3000,
              timers := [3000], actionError := Some ''Cooling down.''\<rparr>)
     (example_app\<lparr>realtimeTranscript := ''Hello there'', actionCooldownUntil := 3000,
              timers := [3000], actionError := Some ''Cooling down.''\<rparr>) =
     (example_app\<lparr>realtimeTranscript := ''Hello there'', actionCooldownUntil := 3000,
              timers := [3000], actionError := Some ''Cooling down.''\<rparr>, None)"
proof -
  let ?a2 = "executeAction_settles (Failed None)
               (fst (executeAction 1000 1000 example_button example_app example_app))"
  let ?a3 = "example_app\<lparr>realtimeTranscript := ''Hello there'', actionCooldownUntil := 3000,
              timers := [3000], actionError := Some ''Cooling down.''\<rparr>"
  have c: "actionCooldownUntil example_app \<le> 1000" by (simp add: example_app_ready)
  note T = failed_action_keeps_cooldown [OF example_app_ready(1,2) c refl refl,
      where ?now2.0 = 1000 and b = example_button and detail = None]
  have a2: "?a2 = example_app\<lparr>actionCooldownUntil := 3000, timers := [3000],
                     actionError := Some ''Action failed''\<rparr>"
    by (simp add: executeAction_def executeAction_settles_def or_default_def
        ACTION_COOLDOWN_MS_def example_app_def initial_app_def trim_def isWhiteSpace_def Let_def)
  have r: "run [Invokes 1500 1500 example_button, TranscriptUpdate ''Hello there'',
        Invokes 2500 2500 example_button] ?a2 = Some (?a3, [])"
    unfolding a2
    by (simp add: executeAction_def example_app_def initial_app_def trim_def isWhiteSpace_def)
  have nb: "trim (realtimeTranscript ?a3) \<noteq> []"
    by (simp add: trim_def isWhiteSpace_def)
  have pre: "run [Invokes 1500 1500 example_button, TranscriptUpdate ''Hello there'',
        Invokes 2500 2500 example_button] ?a2 = Some (?a3, []) \<and>
      (timers example_app = [] \<or>
       \<not> list_ex is_TimerFires [Invokes 1500 1500 example_button, TranscriptUpdate ''Hello there'',
        Invokes 2500 2500 example_button]) \<and>
      (\<forall>u\<in>set (event_times [Invokes 1500 1500 example_button, TranscriptUpdate ''Hello there'',
        Invokes 2500 2500 example_button]). u < 1000 + 2000) \<and>
      (2999::nat) < 1000 + 2000 \<and> trim (realtimeTranscript ?a3) \<noteq> []"
    using r nb example_app_ready(4) by simp
  note main = T [THEN conjunct2, THEN conjunct2, THEN conjunct2, rule_format, OF pre,
      of 2999 example_button]
  have facts: "actionCooldownUntil ?a2 = 3000" "actionOutput ?a2 = []"
      "actionError ?a2 = Some ''Action failed''"
    using T by (simp_all add: or_default_def example_app_def initial_app_def)
  show ?thesis using facts r main by simp
qed

section \<open>Properties of the citation list\<close>

lemma bracketed_runs_Nil: "bracketed_runs [] = {}"
  by (simp add: bracketed_runs_def)

lemma bracketed_runs_Cons:
  "bracketed_runs (c # cs) =
     (if c = CHR ''['' then runs_here cs else {}) \<union> bracketed_runs cs"
proof (intro set_eqI iffI)
  fix n
  assume "n \<in> bracketed_runs (c # cs)"
  then obtain pre post where d: "c # cs = pre @ [CHR ''[''] @ n @ [CHR '']''] @ post"
      "n \<noteq> []" "list_all isDigit n"
    by (auto simp: bracketed_runs_def)
  show "n \<in> (if c = CHR ''['' then runs_here cs else {}) \<union> bracketed_runs cs"
  proof (cases pre)
    case Nil
    with d have "c = CHR ''[''" "cs = n @ [CHR '']''] @ post" by simp_all
    with d show ?thesis by (auto simp: runs_here_def)
  next
    case (Cons p pre')
    with d have "cs = pre' @ [CHR ''[''] @ n @ [CHR '']''] @ post" by simp
    with d have "n \<in> bracketed_runs cs" unfolding bracketed_runs_def by blast
    then show ?thesis by simp
  qed
next
  fix n
  assume "n \<in> (if c = CHR ''['' then runs_here cs else {}) \<union> bracketed_runs cs"
  then consider (here) "c = CHR ''[''" "n \<in> runs_here cs" | (later) "n \<in> bracketed_runs cs"
    by (auto split: if_splits)
  then show "n \<in> bracketed_runs (c # cs)"
  proof cases
    case here
    then obtain post where "cs = n @ [CHR '']''] @ post" "n \<noteq> []" "list_all isDigit n"
      by (auto simp: runs_here_def)
    then have "c # cs = [] @ [CHR ''[''] @ n @ [CHR '']''] @ post \<and> n \<noteq> [] \<and>
        list_all isDigit n"
      using here by simp
    then show ?thesis unfolding bracketed_runs_def by blast
  next
    case later
    then obtain pre post where "cs = pre @ [CHR ''[''] @ n @ [CHR '']''] @ post" "n \<noteq> []"
        "list_all isDigit n"
      by (auto simp: bracketed_runs_def)
    then have "c # cs = (c # pre) @ [CHR ''[''] @ n @ [CHR '']''] @ post \<and> n \<noteq> [] \<and>
        list_all isDigit n"
      by simp
    then show ?thesis unfolding bracketed_runs_def by blast
  qed
qed

lemma not_digit_bracket: "\<not> isDigit (CHR '']'')" "\<not> isDigit (CHR ''['')"
  by (simp_all add: isDigit_def)

lemma runs_here_eq:
  "runs_here cs =
     (case dropWhile isDigit cs of
        [] \<Rightarrow> {}
      | r # rest \<Rightarrow>
          if takeWhile isDigit cs \<noteq> [] \<and> r = CHR '']'' then {takeWhile isDigit cs}
          else {})"
proof -
  have split: "\<And>ds post. list_all isDigit ds \<Longrightarrow> cs = ds @ [CHR '']''] @ post \<Longrightarrow>
      takeWhile isDigit cs = ds \<and> dropWhile isDigit cs = CHR '']'' # post"
    by (simp add: list_all_iff not_digit_bracket)
  show ?thesis
  proof (cases "dropWhile isDigit cs")
    case Nil
    then have "runs_here cs = {}"
      using split by (fastforce simp: runs_here_def)
    with Nil show ?thesis by (simp del: dropWhile_eq_Nil_conv)
  next
    case (Cons r rest)
    show ?thesis
    proof (cases "takeWhile isDigit cs \<noteq> [] \<and> r = CHR '']''")
      case True
      have cs: "cs = takeWhile isDigit cs @ [CHR '']''] @ rest"
        using takeWhile_dropWhile_id [of isDigit cs] Cons True by simp
      have dig: "list_all isDigit (takeWhile isDigit cs)"
        by (auto simp: list_all_iff dest: set_takeWhileD)
      have "runs_here cs = {takeWhile isDigit cs}"
      proof (intro set_eqI iffI)
        fix n assume "n \<in> runs_here cs"
        then show "n \<in> {takeWhile isDigit cs}"
          using split by (fastforce simp: runs_here_def)
      next
        fix n assume "n \<in> {takeWhile isDigit cs}"
        then show "n \<in> runs_here cs"
          unfolding runs_here_def using cs dig True by blast
      qed
      with Cons True show ?thesis by simp
    next
      case False
      have "runs_here cs = {}"
      proof (rule ccontr)
        assume "runs_here cs \<noteq> {}"
        then obtain ds post where "cs = ds @ [CHR '']''] @ post" "ds \<noteq> []" "list_all isDigit ds"
          by (auto simp: runs_here_def)
        with split [of ds post] Cons False show False by auto
      qed
      with Cons False show ?thesis by auto
    qed
  qed
qed

lemma bracketed_runs_skip: "c \<noteq> CHR ''['' \<Longrightarrow> bracketed_runs (c # cs) = bracketed_runs cs"
  by (simp add: bracketed_runs_Cons)

lemma digit_not_bracket: "isDigit c \<Longrightarrow> c \<noteq> CHR ''[''"
  using not_digit_bracket(2) by blast

lemma bracketed_runs_skip_digits:
  "list_all isDigit ds \<Longrightarrow> bracketed_runs (ds @ xs) = bracketed_runs xs"
  by (induction ds) (simp_all add: bracketed_runs_skip digit_not_bracket)

text \<open>The scan finds exactly the bracketed digit runs of the text.\<close>

lemma exec_all_runs: "set (exec_all s) = bracketed_runs s"
proof (induction s rule: exec_all.induct)
  case 1
  then show ?case by (simp add: bracketed_runs_Nil)
next
  case (2 c cs)
  show ?case
  proof (cases "c = CHR ''[''")
    case False
    then show ?thesis using 2 by (simp add: bracketed_runs_Cons)
  next
    case True
    show ?thesis
    proof (cases "dropWhile isDigit cs")
      case Nil
      then show ?thesis using True 2(1)
        by (simp add: bracketed_runs_Cons runs_here_eq del: dropWhile_eq_Nil_conv)
    next
      case (Cons r rest)
      show ?thesis
      proof (cases "takeWhile isDigit cs \<noteq> [] \<and> r = CHR '']''")
        case m: True
        have cs: "cs = takeWhile isDigit cs @ CHR '']'' # rest"
          using takeWhile_dropWhile_id [of isDigit cs] Cons m by simp
        have dig: "list_all isDigit (takeWhile isDigit cs)"
          by (auto simp: list_all_iff dest: set_takeWhileD)
        have "bracketed_runs cs = bracketed_runs (CHR '']'' # rest)"
          using bracketed_runs_skip_digits [OF dig, of "CHR '']'' # rest"] cs by simp
        also have "\<dots> = bracketed_runs rest" by (simp add: bracketed_runs_skip)
        finally have "bracketed_runs cs = bracketed_runs rest" .
        then show ?thesis using True Cons m 2(2)
          by (simp add: bracketed_runs_Cons runs_here_eq)
      next
        case False
        then show ?thesis using True Cons 2(3)
          by (auto simp: bracketed_runs_Cons runs_here_eq)
      qed
    qed
  qed
qed

lemma cited_markers: "cited answer = to_double ` bracketed_markers answer"
  by (simp add: cited_def bracketed_markers_def Number_def exec_all_runs image_image)

lemma bit_length_2_53: "bit_length (2 ^ 53) = 54"
  by (simp add: bit_length.simps)

text \<open>Up to 2^53 a natural number is a double.\<close>

lemma to_double_exact: "n \<le> 2 ^ 53 \<Longrightarrow> to_double n = Num (int n)"
proof (cases "n < 2 ^ 53")
  case True
  then show ?thesis by (simp add: to_double_def)
next
  case False
  assume "n \<le> 2 ^ 53"
  with False have n: "n = 2 ^ 53" by simp
  show ?thesis unfolding n to_double_def bit_length_2_53 by (simp add: Let_def)
qed

lemma withIndex_nth:
  "i < length cs \<Longrightarrow>
     withIndex cs ! i =
       \<lparr> source_type = source_type (cs ! i), chunk_text = chunk_text (cs ! i),
         index = index (cs ! i),
         displayIndex = (case index (cs ! i) of Some k \<Rightarrow> k | None \<Rightarrow> Num (int i + 1)) \<rparr>"
  by (simp add: withIndex_def nth_enumerate_eq)

lemma exact_image:
  assumes "\<forall>n\<in>M. n \<le> 2 ^ 53"
  shows "to_double ` M = (\<lambda>n. Num (int n)) ` M"
  using assms to_double_exact by (intro image_cong) auto

text \<open>
  Claim C4, as stated: the reconciler collects the set of integers that appear as
  bracketed markers and outputs exactly the citations whose displayIndex is in that
  set. The answer \<open>See [9007199254740993]\<close> contains the one marker 9007199254740993
  (2^53 + 1), which \<open>Number\<close> reads as the double 9007199254740992. A citation with the
  explicit index 9007199254740992 is therefore output, although its displayIndex is
  not among the integers that appear as markers.
\<close>

theorem marker_rounded_counterexample:
  "bracketed_markers ''See [9007199254740993]'' = {9007199254740993} \<and>
   filtered ''See [9007199254740993]''
     [\<lparr>source_type = ''cv'', chunk_text = ''Five years of Go'', index = Some (Num 9007199254740992)\<rparr>] =
     [\<lparr>source_type = ''cv'', chunk_text = ''Five years of Go'', index = Some (Num 9007199254740992),
       displayIndex = Num 9007199254740992\<rparr>]"
proof -
  have m: "exec_all ''See [9007199254740993]'' = [''9007199254740993'']"
    by (simp add: isDigit_def)
  have b: "bracketed_markers ''See [9007199254740993]'' = {9007199254740993}"
    unfolding bracketed_markers_def exec_all_runs [symmetric] m
    by (simp add: decimal_def)
  have n: "Number ''9007199254740993'' = Num 9007199254740992"
    by (simp add: Number_def decimal_def to_double_def bit_length.simps Let_def)
  have c: "cited ''See [9007199254740993]'' = {Num 9007199254740992}"
    unfolding cited_def m by (simp add: n)
  show ?thesis using b unfolding filtered_def c
    by (simp add: withIndex_def)
qed

text \<open>
  Claim C4, amended. For every answer text and citation list: the citations are labelled
  in input order, each with its explicit index when it has one and with its 1-based
  position otherwise. The set of cited numbers is the set of doubles that \<open>Number\<close>
  reads from the bracketed digit runs of the answer: for a marker up to 2^53 the
  integer itself, for a larger one the double nearest to it. The output is the labelled
  citations whose label is in that set when the answer has at least one marker, and all
  labelled citations, in input order, when it has none. In particular, when every
  marker of the answer is at most 2^53, the output is exactly the labelled citations
  whose label is an integer that appears as a bracketed marker.
\<close>

theorem citations_reconciled:
  "length (withIndex cs) = length cs \<and>
   (\<forall>i<length cs.
      displayIndex (withIndex cs ! i) =
        (case index (cs ! i) of Some k \<Rightarrow> k | None \<Rightarrow> Num (int i + 1)) \<and>
      source_type (withIndex cs ! i) = source_type (cs ! i) \<and>
      chunk_text (withIndex cs ! i) = chunk_text (cs ! i) \<and>
      index (withIndex cs ! i) = index (cs ! i)) \<and>
   cited answer = to_double ` bracketed_markers answer \<and>
   filtered answer cs =
     (if bracketed_markers answer = {} then withIndex cs
      else filter (\<lambda>c. displayIndex c \<in> to_double ` bracketed_markers answer) (withIndex cs)) \<and>
   ((\<forall>n\<in>bracketed_markers answer. n \<le> 2 ^ 53) \<longrightarrow>
      filtered answer cs =
        (if bracketed_markers answer = {} then withIndex cs
         else filter (\<lambda>c. displayIndex c \<in> (\<lambda>n. Num (int n)) ` bracketed_markers answer)
                (withIndex cs)))"
proof (intro conjI allI impI)
  show "length (withIndex cs) = length cs" by (simp add: withIndex_def)
  show c: "cited answer = to_double ` bracketed_markers answer"
    by (rule cited_markers)
  show f: "filtered answer cs =
     (if bracketed_markers answer = {} then withIndex cs
      else filter (\<lambda>c. displayIndex c \<in> to_double ` bracketed_markers answer) (withIndex cs))"
    unfolding filtered_def c by simp
  assume "\<forall>n\<in>bracketed_markers answer. n \<le> 2 ^ 53"
  then have "to_double ` bracketed_markers answer =
      (\<lambda>n. Num (int n)) ` bracketed_markers answer"
    by (rule exact_image)
  then show "filtered answer cs =
        (if bracketed_markers answer = {} then withIndex cs
         else filter (\<lambda>c. displayIndex c \<in> (\<lambda>n. Num (int n)) ` bracketed_markers answer)
                (withIndex cs))"
    unfolding f by simp
next
  fix i assume i: "i < length cs"
  show "displayIndex (withIndex cs ! i) =
        (case index (cs ! i) of Some k \<Rightarrow> k | None \<Rightarrow> Num (int i + 1))"
    "source_type (withIndex cs ! i) = source_type (cs ! i)"
    "chunk_text (withIndex cs ! i) = chunk_text (cs ! i)"
    "index (withIndex cs ! i) = index (cs ! i)"
    by (simp_all add: withIndex_nth [OF i])
qed

text \<open>The answer \<open>See [1] and [3]\<close> with three unnumbered citations shows the first and
  the third, labelled 1 and 3.\<close>

theorem citations_reconciled_witness:
  "filtered ''See [1] and [3]'' example_citations =
     [\<lparr>source_type = ''cv'', chunk_text = ''Five years of Go'', index = None, displayIndex = Num 1\<rparr>,
      \<lparr>source_type = ''transcript'', chunk_text = ''I led the migration'', index = None,
        displayIndex = Num 3\<rparr>]"
proof -
  have m: "exec_all ''See [1] and [3]'' = [''1'', ''3'']"
    by (simp add: isDigit_def)
  have w: "withIndex example_citations =
     [\<lparr>source_type = ''cv'', chunk_text = ''Five years of Go'', index = None, displayIndex = Num 1\<rparr>,
      \<lparr>source_type = ''jd'', chunk_text = ''Go required'', index = None, displayIndex = Num 2\<rparr>,
      \<lparr>source_type = ''transcript'', chunk_text = ''I led the migration'', index = None,
        displayIndex = Num 3\<rparr>]"
    by (simp add: withIndex_def example_citations_def)
  have b: "bracketed_markers ''See [1] and [3]'' = {1, 3}"
    unfolding bracketed_markers_def exec_all_runs [symmetric] m
    by (simp add: decimal_def)
  have safe: "\<forall>n\<in>bracketed_markers ''See [1] and [3]''. n \<le> 2 ^ 53"
    unfolding b by simp
  note T = citations_reconciled [of example_citations "''See [1] and [3]''",
      THEN conjunct2, THEN conjunct2, THEN conjunct2, THEN conjunct2, THEN mp, OF safe]
  show ?thesis using T unfolding b w by simp
qed

end
